theory Spec2Isabelle
  imports Complex_Main "HOL-Library.Sublist" "HOL-Library.Multiset"
    "HOL-Library.List_Lexorder" "HOL-Library.Char_ord"
begin

section \<open>Python strings\<close>

text \<open>
  Query strings are modelled as \<open>string\<close> restricted to ASCII: \<open>str.upper\<close>, \<open>str.lower\<close>,
  \<open>str.isspace\<close> and the regular-expression classes \<open>\s\<close> and \<open>\w\<close> are given their ASCII
  meaning, and every other character is left alone.
\<close>

definition is_space :: "char \<Rightarrow> bool" where
  \<comment> \<open>\<open>str.isspace\<close> and the class \<open>\s\<close>: TAB, LF, VT, FF, CR, FS, GS, RS, US, SPACE.\<close>
  "is_space c = (c \<in> set [CHR 0x09, CHR 0x0A, CHR 0x0B, CHR 0x0C, CHR 0x0D,
                            CHR 0x1C, CHR 0x1D, CHR 0x1E, CHR 0x1F, CHR 0x20])"

definition lowercase :: string where "lowercase = ''abcdefghijklmnopqrstuvwxyz''"
definition uppercase :: string where "uppercase = ''ABCDEFGHIJKLMNOPQRSTUVWXYZ''"
definition digits :: string where "digits = ''0123456789''"

definition upper_char :: "char \<Rightarrow> char" where
  "upper_char c = (case map_of (zip lowercase uppercase) c of Some u \<Rightarrow> u | None \<Rightarrow> c)"

definition lower_char :: "char \<Rightarrow> char" where
  "lower_char c = (case map_of (zip uppercase lowercase) c of Some l \<Rightarrow> l | None \<Rightarrow> c)"

definition upper :: "string \<Rightarrow> string" where
  "upper s = map upper_char s"

definition lower :: "string \<Rightarrow> string" where
  "lower s = map lower_char s"

definition is_alpha :: "char \<Rightarrow> bool" where
  \<comment> \<open>the class \<open>[A-Za-z]\<close>\<close>
  "is_alpha c = (c \<in> set (lowercase @ uppercase))"

definition is_ident_start :: "char \<Rightarrow> bool" where
  \<comment> \<open>the class \<open>[A-Za-z_]\<close>\<close>
  "is_ident_start c = (is_alpha c \<or> c = CHR ''_'')"

definition is_word :: "char \<Rightarrow> bool" where
  \<comment> \<open>the classes \<open>[A-Za-z0-9_]\<close> and \<open>\w\<close>\<close>
  "is_word c = (is_alpha c \<or> c \<in> set digits \<or> c = CHR ''_'')"

definition is_proc_char :: "char \<Rightarrow> bool" where
  \<comment> \<open>the class \<open>[a-zA-Z0-9_.]\<close>\<close>
  "is_proc_char c = (is_word c \<or> c = CHR ''.'')"

definition is_quote :: "char \<Rightarrow> bool" where
  \<comment> \<open>the class \<open>["']\<close>\<close>
  "is_quote c = (c = CHR 0x22 \<or> c = CHR 0x27)"

fun is_substring :: "string \<Rightarrow> string \<Rightarrow> bool" where
  \<comment> \<open>Python's \<open>sub in s\<close>\<close>
  "is_substring sub [] = (sub = [])"
| "is_substring sub (c # cs) = (prefix sub (c # cs) \<or> is_substring sub cs)"

definition strip :: "string \<Rightarrow> string" where
  \<comment> \<open>\<open>str.strip()\<close>\<close>
  "strip s = dropWhile is_space (rev (dropWhile is_space (rev s)))"

definition count_char :: "char \<Rightarrow> string \<Rightarrow> nat" where
  \<comment> \<open>\<open>str.count\<close> of a one-character string\<close>
  "count_char c s = length (filter (\<lambda>d. d = c) s)"

lemma length_dropWhile_Suc [termination_simp]:
  "length (dropWhile P xs) < Suc (length xs)"
  by (simp add: length_dropWhile_le le_imp_less_Suc)

section \<open>Rejections\<close>

text \<open>
  \<open>ValidationError\<close> of \<open>utils/exceptions.py\<close> carries a \<open>validation_type\<close> and an
  \<open>invalid_value\<close>; the \<open>ValueError\<close>s of \<open>research_query_agent.py\<close> carry a message with
  the offending token. One constructor stands for each raise site:
  \<open>EmptyQuery\<close> (no validation type), \<open>ForbiddenKeyword\<close> (\<open>read_only_check\<close>),
  \<open>DisallowedProcedure\<close> (\<open>procedure_validation\<close>), \<open>UnknownLabel\<close> (\<open>label_validation\<close>),
  \<open>UnknownRelationship\<close> (\<open>relationship_validation\<close>), \<open>SuspiciousProperty\<close>
  (\<open>property_validation\<close>, with the pattern), \<open>MalformedStructure\<close>
  (\<open>structure_validation\<close>, with the message), \<open>UnknownProperty\<close> and
  \<open>UnknownLabelOrRelationship\<close> (the two \<open>ValueError\<close>s of \<open>research_query_agent.py\<close>).
\<close>

datatype rejection =
    EmptyQuery
  | ForbiddenKeyword string
  | DisallowedProcedure string
  | UnknownLabel string
  | UnknownRelationship string
  | SuspiciousProperty string
  | MalformedStructure string
  | UnknownProperty string
  | UnknownLabelOrRelationship string

section \<open>\<open>research_graph_rag/utils/validators.py\<close>: class \<open>CypherValidator\<close>\<close>

definition FORBIDDEN_KEYWORDS :: "string list" where
  \<comment> \<open>The source holds a Python set; this is the order of its literal. A \<open>for\<close> loop over
      the set visits it in an order that is not fixed, so the functions below take the order
      of iteration \<open>kws\<close> as an argument.\<close>
  "FORBIDDEN_KEYWORDS = [''CREATE'', ''MERGE'', ''DELETE'', ''REMOVE'', ''SET'', ''DROP'',
                         ''DETACH DELETE'', ''FOREACH'', ''LOAD CSV'']"

definition ALLOWED_PROCEDURES :: "string list" where
  "ALLOWED_PROCEDURES = [''gds.'', ''db.labels'', ''db.relationshipTypes'',
                         ''db.propertyKeys'', ''db.schema'', ''dbms.components'']"

definition VALID_LABELS :: "string set" where
  "VALID_LABELS = {''Author'', ''Work'', ''Topic''}"

definition VALID_RELATIONSHIPS :: "string set" where
  "VALID_RELATIONSHIPS = {''WORK_AUTHORED_BY'', ''WORK_HAS_TOPIC'', ''RELATED_TO'',
                          ''COLLABORATED_WITH'', ''SHARES_TOPIC_WITH''}"

definition match_call :: "string \<Rightarrow> (string \<times> string) option" where
  \<comment> \<open>\<open>CALL\s+([a-zA-Z0-9_.]+)\<close> with \<open>re.IGNORECASE\<close>, matched at the head of the string:
      the captured name and what follows the match.\<close>
  "match_call s =
     (let r = drop 4 s; name = takeWhile is_proc_char (dropWhile is_space r)
      in if upper (take 4 s) = ''CALL'' \<and> takeWhile is_space r \<noteq> [] \<and> name \<noteq> []
         then Some (name, dropWhile is_proc_char (dropWhile is_space r))
         else None)"

lemma match_call_shorter:
  "match_call s = Some (name, rest) \<Longrightarrow> length rest < length s"
proof -
  assume a: "match_call s = Some (name, rest)"
  then have r: "rest = dropWhile is_proc_char (dropWhile is_space (drop 4 s))"
    and u: "upper (take 4 s) = ''CALL''"
    by (auto simp: match_call_def Let_def split: if_splits)
  from u have "length (upper (take 4 s)) = length ''CALL''" by simp
  then have "4 \<le> length s" by (simp add: upper_def)
  moreover have "length rest \<le> length (drop 4 s)"
    unfolding r by (meson length_dropWhile_le le_trans)
  ultimately show ?thesis by simp
qed

function findall_calls :: "string \<Rightarrow> string list" where
  \<comment> \<open>\<open>re.findall(call_pattern, cypher, re.IGNORECASE)\<close>\<close>
  "findall_calls [] = []"
| "findall_calls (c # cs) =
     (case match_call (c # cs) of
        Some (name, rest) \<Rightarrow> name # findall_calls rest
      | None \<Rightarrow> findall_calls cs)"
  by pat_completeness auto
termination
  by (relation "measure length") (auto dest: match_call_shorter)

definition procedure_allowed :: "string \<Rightarrow> bool" where
  "procedure_allowed call = list_ex (\<lambda>p. prefix p (lower call)) ALLOWED_PROCEDURES"

definition validate_procedure_calls :: "string \<Rightarrow> rejection + unit" where
  "validate_procedure_calls cypher =
     (case find (\<lambda>call. \<not> procedure_allowed call) (findall_calls cypher) of
        Some call \<Rightarrow> Inl (DisallowedProcedure call)
      | None \<Rightarrow> Inr ())"

definition assert_read_only :: "string list \<Rightarrow> string \<Rightarrow> rejection + unit" where
  "assert_read_only kws cypher =
     (let cypher_upper = upper cypher
      in case find (\<lambda>keyword. is_substring keyword cypher_upper) kws of
           Some keyword \<Rightarrow> Inl (ForbiddenKeyword keyword)
         | None \<Rightarrow>
             if is_substring ''CALL '' cypher_upper then validate_procedure_calls cypher
             else Inr ())"

fun remove_line_comments :: "string \<Rightarrow> string" where
  \<comment> \<open>\<open>re.sub(r'//.*$', '', s, flags=re.MULTILINE)\<close>: from \<open>//\<close> to the end of the line\<close>
  "remove_line_comments (c # d # ds) =
     (if c = CHR ''/'' \<and> d = CHR ''/''
      then remove_line_comments (dropWhile (\<lambda>e. e \<noteq> CHR 0x0A) ds)
      else c # remove_line_comments (d # ds))"
| "remove_line_comments s = s"

fun after_close :: "string \<Rightarrow> string option" where
  \<comment> \<open>what follows the first \<open>*/\<close>, if there is one\<close>
  "after_close (c # d # ds) =
     (if c = CHR ''*'' \<and> d = CHR ''/'' then Some ds else after_close (d # ds))"
| "after_close s = None"

lemma after_close_shorter:
  "after_close s = Some rest \<Longrightarrow> length rest < length s"
  by (induction s rule: after_close.induct) (auto split: if_splits)

function remove_block_comments :: "string \<Rightarrow> string" where
  \<comment> \<open>\<open>re.sub(r'/\*.*?\*/', '', s, flags=re.DOTALL)\<close>: from \<open>/*\<close> to the nearest \<open>*/\<close>\<close>
  "remove_block_comments (c # d # ds) =
     (if c = CHR ''/'' \<and> d = CHR ''*'' then
        (case after_close ds of
           Some rest \<Rightarrow> remove_block_comments rest
         | None \<Rightarrow> c # remove_block_comments (d # ds))
      else c # remove_block_comments (d # ds))"
| "remove_block_comments [c] = [c]"
| "remove_block_comments [] = []"
  by pat_completeness auto
termination
proof (relation "measure length")
  fix c d :: char and ds rest :: string
  assume "after_close ds = Some rest"
  then have "length rest < length ds" by (rule after_close_shorter)
  then show "(rest, c # d # ds) \<in> measure length" by simp
qed auto

fun collapse_ws :: "string \<Rightarrow> string" where
  \<comment> \<open>\<open>re.sub(r'\s+', ' ', s)\<close>\<close>
  "collapse_ws [] = []"
| "collapse_ws (c # cs) =
     (if is_space c then CHR '' '' # collapse_ws (dropWhile is_space cs)
      else c # collapse_ws cs)"

definition clean :: "string \<Rightarrow> string" where
  \<comment> \<open>the value of \<open>cleaned\<close> when \<open>prepare_cypher\<close> reaches \<open>assert_read_only\<close>\<close>
  "clean cypher = collapse_ws (remove_block_comments (remove_line_comments (strip cypher)))"

definition prepare_cypher :: "string list \<Rightarrow> string \<Rightarrow> rejection + string" where
  "prepare_cypher kws cypher =
     (if cypher = [] \<or> strip cypher = [] then Inl EmptyQuery
      else case assert_read_only kws (clean cypher) of
             Inl e \<Rightarrow> Inl e
           | Inr _ \<Rightarrow> Inr (clean cypher))"

fun findall_labels :: "string \<Rightarrow> string list" where
  \<comment> \<open>\<open>re.findall(r':([A-Za-z][A-Za-z0-9_]*)', cypher)\<close>\<close>
  "findall_labels (c # d # ds) =
     (if c = CHR '':'' \<and> is_alpha d
      then takeWhile is_word (d # ds) # findall_labels (dropWhile is_word ds)
      else findall_labels (d # ds))"
| "findall_labels s = []"

definition validate_labels :: "string \<Rightarrow> rejection + unit" where
  "validate_labels cypher =
     (case find (\<lambda>label. label \<notin> VALID_LABELS) (findall_labels cypher) of
        Some label \<Rightarrow> Inl (UnknownLabel label)
      | None \<Rightarrow> Inr ())"

definition match_rel :: "string \<Rightarrow> (string \<times> string) option" where
  \<comment> \<open>\<open>\[:([A-Za-z_][A-Za-z0-9_]*)\]\<close> matched at the head of the string: the captured
      type and what follows the closing bracket\<close>
  "match_rel s =
     (case s of
        c # d # e # es \<Rightarrow>
          (if c = CHR ''['' \<and> d = CHR '':'' \<and> is_ident_start e then
             (case dropWhile is_word es of
                f # fs \<Rightarrow> if f = CHR '']'' then Some (e # takeWhile is_word es, fs) else None
              | [] \<Rightarrow> None)
           else None)
      | _ \<Rightarrow> None)"

lemma match_rel_shorter:
  "match_rel s = Some (name, rest) \<Longrightarrow> length rest < length s"
proof -
  assume a: "match_rel s = Some (name, rest)"
  then obtain c d e es f where s: "s = c # d # e # es" and r: "dropWhile is_word es = f # rest"
    by (auto simp: match_rel_def split: list.splits if_splits)
  have "length (dropWhile is_word es) \<le> length es" by (rule length_dropWhile_le)
  with r s show ?thesis by simp
qed

function findall_relationships :: "string \<Rightarrow> string list" where
  \<comment> \<open>\<open>re.findall(rel_pattern, cypher)\<close>\<close>
  "findall_relationships [] = []"
| "findall_relationships (c # cs) =
     (case match_rel (c # cs) of
        Some (name, rest) \<Rightarrow> name # findall_relationships rest
      | None \<Rightarrow> findall_relationships cs)"
  by pat_completeness auto
termination
  by (relation "measure length") (auto dest: match_rel_shorter)

definition validate_relationships :: "string \<Rightarrow> rejection + unit" where
  "validate_relationships cypher =
     (case find (\<lambda>rel. rel \<notin> VALID_RELATIONSHIPS) (findall_relationships cypher) of
        Some rel \<Rightarrow> Inl (UnknownRelationship rel)
      | None \<Rightarrow> Inr ())"

fun in_order :: "(char \<Rightarrow> bool) list \<Rightarrow> string \<Rightarrow> bool" where
  \<comment> \<open>the line has characters of the given classes in this order, anything between them\<close>
  "in_order [] s = True"
| "in_order (p # ps) [] = False"
| "in_order (p # ps) (c # cs) = (if p c then in_order ps cs else in_order (p # ps) cs)"

fun split_lines :: "string \<Rightarrow> string list" where
  \<comment> \<open>the pieces between line feeds: \<open>.\<close> matches every character but the line feed\<close>
  "split_lines [] = [[]]"
| "split_lines (c # cs) =
     (if c = CHR 0x0A then [] # split_lines cs
      else (case split_lines cs of l # ls \<Rightarrow> (c # l) # ls | [] \<Rightarrow> [[c]]))"

definition re_search :: "(char \<Rightarrow> bool) list \<Rightarrow> string \<Rightarrow> bool" where
  \<comment> \<open>\<open>re.search\<close> of a pattern \<open>c1.*c2.* ... .*cn\<close> of character classes\<close>
  "re_search classes s = list_ex (in_order classes) (split_lines s)"

definition quote_class :: string where
  \<comment> \<open>the five characters of the source text of the class \<open>["\']\<close>\<close>
  "quote_class = [CHR ''['', CHR 0x22, CHR 0x5C, CHR 0x27, CHR '']'']"

definition suspicious_patterns :: "(string \<times> (char \<Rightarrow> bool) list) list" where
  \<comment> \<open>each pattern of the source, as written there, with its character classes in order:
      string concatenation, parameter injection, template injection\<close>
  "suspicious_patterns =
     [(quote_class @ ''.*'' @ quote_class @ ''.*'' @ [CHR 0x5C] @ ''+.*'' @ quote_class,
       [is_quote, is_quote, (\<lambda>c. c = CHR ''+''), is_quote]),
      (quote_class @ ''.*'' @ [CHR 0x5C] @ ''$.*'' @ quote_class,
       [is_quote, (\<lambda>c. c = CHR ''$''), is_quote]),
      (quote_class @ ''.*'' @ [CHR 0x5C] @ ''{.*'' @ [CHR 0x5C] @ ''}.*'' @ quote_class,
       [is_quote, (\<lambda>c. c = CHR ''{''), (\<lambda>c. c = CHR ''}''), is_quote])]"

definition validate_properties :: "string \<Rightarrow> rejection + unit" where
  "validate_properties cypher =
     (case find (\<lambda>(pattern, classes). re_search classes cypher) suspicious_patterns of
        Some (pattern, classes) \<Rightarrow> Inl (SuspiciousProperty pattern)
      | None \<Rightarrow> Inr ())"

definition validate_query_structure :: "string \<Rightarrow> rejection + unit" where
  "validate_query_structure cypher =
     (let cypher_upper = upper cypher
      in if count_char CHR ''('' cypher \<noteq> count_char CHR '')'' cypher
           then Inl (MalformedStructure ''Unbalanced parentheses in query'')
         else if count_char CHR ''['' cypher \<noteq> count_char CHR '']'' cypher
           then Inl (MalformedStructure ''Unbalanced brackets in query'')
         else if count_char CHR ''{'' cypher \<noteq> count_char CHR ''}'' cypher
           then Inl (MalformedStructure ''Unbalanced braces in query'')
         else if \<not> (is_substring ''RETURN'' cypher_upper \<or> is_substring ''YIELD'' cypher_upper)
                 \<and> \<not> is_substring ''CALL'' cypher_upper
           then Inl (MalformedStructure ''Query must have a RETURN or YIELD clause'')
         else Inr ())"

definition validate_full :: "string list \<Rightarrow> string \<Rightarrow> rejection + string" where
  "validate_full kws cypher =
     (case prepare_cypher kws cypher of
        Inl e \<Rightarrow> Inl e
      | Inr prepared \<Rightarrow>
          (case validate_query_structure prepared of
             Inl e \<Rightarrow> Inl e
           | Inr _ \<Rightarrow>
               (case validate_properties prepared of
                  Inl e \<Rightarrow> Inl e
                | Inr _ \<Rightarrow>
                    if \<not> is_substring ''CALL gds.'' (upper prepared) then
                      (case validate_labels prepared of
                         Inl e \<Rightarrow> Inl e
                       | Inr _ \<Rightarrow>
                           (case validate_relationships prepared of
                              Inl e \<Rightarrow> Inl e
                            | Inr _ \<Rightarrow> Inr prepared))
                    else Inr prepared)))"

section \<open>\<open>research_query_agent.py\<close>: class \<open>CypherValidator\<close>\<close>

text \<open>
  The module of the first agent has a validator class of the same name with its own
  tables. Its functions carry the prefix \<open>rqa\<close> here.
\<close>

definition RQA_FORBIDDEN_KEYWORDS :: "string list" where
  \<comment> \<open>a Python set, in the order of its literal\<close>
  "RQA_FORBIDDEN_KEYWORDS = [''CREATE'', ''MERGE'', ''DELETE'', ''SET'', ''DROP'',
                             ''REMOVE'', ''CALL'', ''LOAD CSV'', ''APOC'']"

definition SCHEMA :: "(string \<times> string set) list" where
  "SCHEMA = [(''Author'', {''id'', ''name'', ''display_name''}),
             (''Work'', {''id'', ''title'', ''type'', ''publication_date''}),
             (''Topic'', {''id'', ''display_name'', ''score''})]"

definition PROPERTY_ALIASES :: "(string \<times> string) list" where
  \<comment> \<open>a dict: \<open>items()\<close> yields the entries in the order of the literal\<close>
  "PROPERTY_ALIASES = [(''publication_year'', ''publication_date''),
                       (''pub_year'', ''publication_date''),
                       (''year'', ''publication_date'')]"

definition RELATIONSHIP_CANONICAL :: "(string \<times> string) list" where
  "RELATIONSHIP_CANONICAL = [(''WROTE'', ''WORK_AUTHORED_BY''),
                             (''AUTHORED'', ''WORK_AUTHORED_BY''),
                             (''AUTHORED_BY'', ''WORK_AUTHORED_BY''),
                             (''HAS_TOPIC'', ''WORK_HAS_TOPIC''),
                             (''TOPIC_IN'', ''WORK_HAS_TOPIC'')]"

definition rqa_assert_read_only :: "string list \<Rightarrow> string \<Rightarrow> rejection + unit" where
  "rqa_assert_read_only kws cypher =
     (case find (\<lambda>kw. is_substring kw (upper cypher)) kws of
        Some kw \<Rightarrow> Inl (ForbiddenKeyword kw)
      | None \<Rightarrow> Inr ())"

definition match_property :: "string \<Rightarrow> ((string \<times> string) \<times> string) option" where
  \<comment> \<open>\<open>(\w+)\.(\w+)\<close> matched at the head of the string: the two groups and what follows\<close>
  "match_property s =
     (case dropWhile is_word s of
        d # e # es \<Rightarrow>
          if takeWhile is_word s \<noteq> [] \<and> d = CHR ''.'' \<and> is_word e
          then Some ((takeWhile is_word s, takeWhile is_word (e # es)), dropWhile is_word es)
          else None
      | _ \<Rightarrow> None)"

lemma match_property_shorter:
  "match_property s = Some (g, rest) \<Longrightarrow> length rest < length s"
proof -
  assume "match_property s = Some (g, rest)"
  then obtain d e es where d: "dropWhile is_word s = d # e # es"
    and r: "rest = dropWhile is_word es"
    by (auto simp: match_property_def split: list.splits if_splits)
  have "length (dropWhile is_word s) \<le> length s" by (rule length_dropWhile_le)
  moreover have "length rest \<le> length es" unfolding r by (rule length_dropWhile_le)
  ultimately show ?thesis using d by simp
qed

function findall_properties :: "string \<Rightarrow> (string \<times> string) list" where
  \<comment> \<open>\<open>re.findall(r"(\w+)\.(\w+)", cypher)\<close>\<close>
  "findall_properties [] = []"
| "findall_properties (c # cs) =
     (case match_property (c # cs) of
        Some (g, rest) \<Rightarrow> g # findall_properties rest
      | None \<Rightarrow> findall_properties cs)"
  by pat_completeness auto
termination
  by (relation "measure length") (auto dest: match_property_shorter)

definition known_property :: "string \<Rightarrow> bool" where
  \<comment> \<open>\<open>any(prop in props for props in SCHEMA.values())\<close>\<close>
  "known_property prop = list_ex (\<lambda>(kind, props). prop \<in> props) SCHEMA"

definition rqa_validate_properties :: "string \<Rightarrow> rejection + unit" where
  "rqa_validate_properties cypher =
     (case find (\<lambda>(var, prop). \<not> known_property prop) (findall_properties cypher) of
        Some (var, prop) \<Rightarrow> Inl (UnknownProperty prop)
      | None \<Rightarrow> Inr ())"

definition word_boundary :: "string \<Rightarrow> string \<Rightarrow> bool" where
  \<comment> \<open>\<open>\b\<close> between the text matched so far and the rest of the string\<close>
  "word_boundary matched rest =
     ((matched \<noteq> [] \<and> is_word (last matched)) \<noteq> (rest \<noteq> [] \<and> is_word (hd rest)))"

function sub_accessor :: "string \<Rightarrow> string \<Rightarrow> string \<Rightarrow> string" where
  \<comment> \<open>\<open>re.sub(rf"\.{bad}\b", f".{good}", cypher)\<close>\<close>
  "sub_accessor bad good [] = []"
| "sub_accessor bad good (c # cs) =
     (if prefix (CHR ''.'' # bad) (c # cs) \<and> word_boundary (CHR ''.'' # bad) (drop (length bad) cs)
      then (CHR ''.'' # good) @ sub_accessor bad good (drop (length bad) cs)
      else c # sub_accessor bad good cs)"
  by pat_completeness auto
termination
  by (relation "measure (\<lambda>(bad, good, s). length s)") auto

definition normalize_properties :: "string \<Rightarrow> string" where
  "normalize_properties cypher =
     fold (\<lambda>(bad, good) cypher. sub_accessor bad good cypher) PROPERTY_ALIASES cypher"

function replace :: "string \<Rightarrow> string \<Rightarrow> string \<Rightarrow> string" where
  \<comment> \<open>\<open>s.replace(old, new)\<close> for a non-empty \<open>old\<close>\<close>
  "replace old new [] = []"
| "replace old new (c # cs) =
     (if old \<noteq> [] \<and> prefix old (c # cs)
      then new @ replace old new (drop (length old) (c # cs))
      else c # replace old new cs)"
  by pat_completeness auto
termination
  by (relation "measure (\<lambda>(old, new, s). length s)") auto

definition normalize_relationships :: "string \<Rightarrow> string" where
  "normalize_relationships cypher =
     fold (\<lambda>(bad, good) cypher. replace (CHR '':'' # bad) (CHR '':'' # good) cypher)
       RELATIONSHIP_CANONICAL cypher"

fun rqa_findall_labels :: "string \<Rightarrow> string list" where
  \<comment> \<open>\<open>re.findall(r":([A-Za-z_][A-Za-z0-9_]*)", cypher)\<close>\<close>
  "rqa_findall_labels (c # d # ds) =
     (if c = CHR '':'' \<and> is_ident_start d
      then takeWhile is_word (d # ds) # rqa_findall_labels (dropWhile is_word ds)
      else rqa_findall_labels (d # ds))"
| "rqa_findall_labels s = []"

definition rqa_validate_labels :: "string \<Rightarrow> rejection + unit" where
  "rqa_validate_labels cypher =
     (case find (\<lambda>label. label \<notin> VALID_LABELS \<and> label \<notin> snd ` set RELATIONSHIP_CANONICAL)
             (rqa_findall_labels cypher) of
        Some label \<Rightarrow> Inl (UnknownLabelOrRelationship label)
      | None \<Rightarrow> Inr ())"

definition rqa_prepare_cypher :: "string list \<Rightarrow> string \<Rightarrow> rejection + string" where
  "rqa_prepare_cypher kws cypher =
     (case rqa_assert_read_only kws cypher of
        Inl e \<Rightarrow> Inl e
      | Inr _ \<Rightarrow>
          (case rqa_validate_labels (normalize_relationships cypher) of
             Inl e \<Rightarrow> Inl e
           | Inr _ \<Rightarrow> Inr (normalize_relationships cypher)))"

section \<open>\<open>research_graph_rag/agents/network_agent.py\<close>: class \<open>NetworkAnalysisAgent\<close>\<close>

text \<open>
  A record of the backend is a Python dict from field names to values. A value is null,
  an int, a float or a string. A float is modelled as an exact real: rounding, the
  infinities and NaN are not part of the model. An int is unbounded, and \<open>float(n)\<close> of
  an int beyond the range of a double raises \<open>OverflowError\<close>. A key that is missing from
  the dict is \<open>None\<close> of the map. An exception is a value of \<open>exn\<close>, and a function that
  can raise returns \<open>exn + 'a\<close>.
\<close>

datatype pyval = PNull | PInt int | PFloat real | PStr string

type_synonym pydict = "string \<rightharpoonup> pyval"

datatype exn = TypeError | ValueError string | OverflowError | BackendError string

definition get :: "pydict \<Rightarrow> string \<Rightarrow> pyval \<Rightarrow> pyval" where
  \<comment> \<open>\<open>d.get(key, default)\<close>; \<open>d.get(key)\<close> is \<open>get d key PNull\<close>\<close>
  "get d key dflt = (case d key of None \<Rightarrow> dflt | Some v \<Rightarrow> v)"

definition FLOAT_LIMIT :: int where
  \<comment> \<open>the least int that rounds to \<open>2 ^ 1024\<close>: halfway between the largest double,
      \<open>2 ^ 1024 - 2 ^ 971\<close>, and \<open>2 ^ 1024\<close>\<close>
  "FLOAT_LIMIT = 2 ^ 1024 - 2 ^ 970"

definition int_to_float :: "int \<Rightarrow> exn + real" where
  \<comment> \<open>\<open>float(n)\<close> of an int\<close>
  "int_to_float n =
     (if FLOAT_LIMIT \<le> n \<or> n \<le> - FLOAT_LIMIT then Inl OverflowError else Inr (real_of_int n))"

type_synonym str_to_float = "string \<Rightarrow> real option"
  \<comment> \<open>Python's \<open>float(s)\<close> of a string: the number that the string spells, or \<open>None\<close> where
      \<open>float\<close> raises \<open>ValueError\<close>. The functions that convert a string take it as an
      argument.\<close>

definition weights :: "(string \<times> real) list" where
  \<comment> \<open>a dict literal: the loop visits it in this order\<close>
  "weights = [(''degree_centrality'', 2 / 10), (''betweenness_centrality'', 3 / 10),
              (''closeness_centrality'', 2 / 10), (''pagerank_score'', 3 / 10)]"

fun accumulate :: "pydict \<Rightarrow> (string \<times> real) list \<Rightarrow> real \<times> real \<Rightarrow> exn + real \<times> real" where
  \<comment> \<open>the loop over \<open>weights.items()\<close> with its two running sums \<open>(score, total_weight)\<close>;
      \<open>value > 0\<close> raises \<open>TypeError\<close> for a string, and \<open>float(value)\<close> raises
      \<open>OverflowError\<close> for an int beyond the range of a double\<close>
  "accumulate record [] (score, total_weight) = Inr (score, total_weight)"
| "accumulate record ((metric, weight) # rest) (score, total_weight) =
     (case get record metric PNull of
        PNull \<Rightarrow> accumulate record rest (score, total_weight)
      | PStr s \<Rightarrow> Inl TypeError
      | PFloat v \<Rightarrow>
          if v > 0 then accumulate record rest (score + weight * v, total_weight + weight)
          else accumulate record rest (score, total_weight)
      | PInt n \<Rightarrow>
          if n > 0 then
            (case int_to_float n of
               Inl e \<Rightarrow> Inl e
             | Inr v \<Rightarrow> accumulate record rest (score + weight * v, total_weight + weight))
          else accumulate record rest (score, total_weight))"

definition calculate_composite_confidence :: "pydict \<Rightarrow> exn + real" where
  "calculate_composite_confidence record =
     (case accumulate record weights (0, 0) of
        Inl e \<Rightarrow> Inl e
      | Inr (score, total_weight) \<Rightarrow>
          (let normalized_score = (if total_weight > 0 then score / total_weight else 0);
               normalized_score = (if get record ''community_id'' PNull \<noteq> PNull
                                   then normalized_score * (12 / 10) else normalized_score)
           in Inr (min normalized_score 1)))"

definition metric_map :: "(string \<times> string) list" where
  "metric_map = [(''centrality'', ''pagerank_score''), (''community'', ''pagerank_score''),
                 (''shortest_path'', ''totalCost''), (''similarity'', ''similarity_score'')]"

definition get_main_metric :: "str_to_float \<Rightarrow> pydict \<Rightarrow> string \<Rightarrow> exn + real" where
  \<comment> \<open>\<open>value > 0\<close> raises \<open>TypeError\<close> for null and for a string; \<open>float(value)\<close> raises
      \<open>OverflowError\<close> for an int beyond the range of a double and \<open>ValueError\<close> for a
      string that spells no number\<close>
  "get_main_metric float_of_str record analysis_type =
     (let metric_key = (case map_of metric_map analysis_type of None \<Rightarrow> ''score'' | Some k \<Rightarrow> k);
          val = get record metric_key (PFloat 0)
      in if analysis_type = ''shortest_path'' then
           (case val of
              PFloat v \<Rightarrow> Inr (if v > 0 then 1 / (1 + v) else 0)
            | PInt n \<Rightarrow>
                if n > 0 then
                  (case int_to_float n of Inl e \<Rightarrow> Inl e | Inr v \<Rightarrow> Inr (1 / (1 + v)))
                else Inr 0
            | _ \<Rightarrow> Inl TypeError)
         else
           (case val of
              PNull \<Rightarrow> Inr 0
            | PFloat v \<Rightarrow> Inr v
            | PInt n \<Rightarrow> int_to_float n
            | PStr s \<Rightarrow>
                (case float_of_str s of None \<Rightarrow> Inl (ValueError s) | Some v \<Rightarrow> Inr v)))"

definition get_metrics_list :: "string \<Rightarrow> string list" where
  "get_metrics_list analysis_type =
     (case map_of
        [(''comprehensive'', [''degree_centrality'', ''betweenness_centrality'',
                              ''closeness_centrality'', ''pagerank_score'', ''community_id'']),
         (''community'', [''pagerank_score'', ''community_id'', ''same_community'']),
         (''centrality'', [''pagerank_score'']),
         (''shortest_path'', [''totalCost'', ''path_length'']),
         (''similarity'', [''similarity_score''])] analysis_type of
        None \<Rightarrow> [''score'']
      | Some l \<Rightarrow> l)"

definition confidence_of :: "str_to_float \<Rightarrow> string \<Rightarrow> pydict \<Rightarrow> exn + pyval" where
  \<comment> \<open>the value stored under \<open>confidence_score\<close>, by analysis type\<close>
  "confidence_of float_of_str analysis_type record =
     (if analysis_type = ''comprehensive'' then
        (case calculate_composite_confidence record of
           Inl e \<Rightarrow> Inl e | Inr c \<Rightarrow> Inr (PFloat c))
      else if analysis_type = ''community'' then
        Inr (get record ''confidence_score'' (PFloat 0))
      else
        (case get_main_metric float_of_str record analysis_type of
           Inl e \<Rightarrow> Inl e | Inr c \<Rightarrow> Inr (PFloat c)))"

fun process_records :: "str_to_float \<Rightarrow> string \<Rightarrow> pydict list \<Rightarrow> exn + pydict list" where
  \<comment> \<open>the loop that builds \<open>processed_records\<close>; the first exception ends it\<close>
  "process_records float_of_str analysis_type [] = Inr []"
| "process_records float_of_str analysis_type (record # rest) =
     (case confidence_of float_of_str analysis_type record of
        Inl e \<Rightarrow> Inl e
      | Inr c \<Rightarrow>
          (case process_records float_of_str analysis_type rest of
             Inl e \<Rightarrow> Inl e
           | Inr done \<Rightarrow> Inr (record(''confidence_score'' \<mapsto> c) # done)))"

definition sort_key_of :: "pydict \<Rightarrow> pyval" where
  \<comment> \<open>\<open>lambda x: x.get('confidence_score', 0)\<close>\<close>
  "sort_key_of x = get x ''confidence_score'' (PInt 0)"

definition is_num :: "pyval \<Rightarrow> bool" where
  "is_num v = (case v of PInt n \<Rightarrow> True | PFloat x \<Rightarrow> True | _ \<Rightarrow> False)"

definition is_str :: "pyval \<Rightarrow> bool" where
  "is_str v = (case v of PStr s \<Rightarrow> True | _ \<Rightarrow> False)"

definition num_of :: "pyval \<Rightarrow> real" where
  \<comment> \<open>the number that an int or a float stands for: Python compares the two exactly\<close>
  "num_of v = (case v of PInt n \<Rightarrow> real_of_int n | PFloat x \<Rightarrow> x | _ \<Rightarrow> 0)"

definition str_of :: "pyval \<Rightarrow> string" where
  "str_of v = (case v of PStr s \<Rightarrow> s | _ \<Rightarrow> [])"

definition sort_reverse :: "('a \<Rightarrow> 'k::linorder) \<Rightarrow> 'a list \<Rightarrow> 'a list" where
  \<comment> \<open>\<open>list.sort(key=..., reverse=True)\<close>: the list is reversed, sorted by a stable sort
      and reversed again\<close>
  "sort_reverse key xs = rev (sort_key key (rev xs))"

definition sort_by_confidence :: "pydict list \<Rightarrow> exn + pydict list" where
  \<comment> \<open>\<open>processed_records.sort(key=lambda x: x.get('confidence_score', 0), reverse=True)\<close>.
      Numbers compare with numbers and strings with strings; every other comparison raises
      \<open>TypeError\<close>, and a list of two or more records is not sorted without comparing each
      key with another one.\<close>
  "sort_by_confidence rs =
     (if length rs < 2 then Inr rs
      else if list_all (\<lambda>r. is_num (sort_key_of r)) rs
        then Inr (sort_reverse (\<lambda>r. num_of (sort_key_of r)) rs)
      else if list_all (\<lambda>r. is_str (sort_key_of r)) rs
        then Inr (sort_reverse (\<lambda>r. str_of (sort_key_of r)) rs)
      else Inl TypeError)"

text \<open>
  The reference definition of the composite confidence score, following the words of the
  specification: the weighted metrics that count are those present with a value strictly
  greater than 0; the score is the sum of weight times value over them, divided by the sum
  of their weights (0 when there is none), multiplied by 1.2 when \<open>community_id\<close> is not
  null, and clamped to at most 1.
\<close>

definition counted :: "pydict \<Rightarrow> (string \<times> real) list \<Rightarrow> (string \<times> real) list" where
  "counted record ws =
     filter (\<lambda>(metric, weight). is_num (get record metric PNull)
                                 \<and> num_of (get record metric PNull) > 0) ws"

definition reference_confidence :: "pydict \<Rightarrow> real" where
  "reference_confidence record =
     (let present = counted record weights;
          base = (if present = [] then 0
                  else (\<Sum>(metric, weight)\<leftarrow>present. weight * num_of (get record metric PNull))
                       / (\<Sum>(metric, weight)\<leftarrow>present. weight));
          boosted = (if get record ''community_id'' PNull \<noteq> PNull then base * (12 / 10) else base)
      in min boosted 1)"

definition metric_error :: "pyval \<Rightarrow> exn option" where
  \<comment> \<open>the exception that a weighted metric of this value raises, if it raises one\<close>
  "metric_error v =
     (case v of
        PStr s \<Rightarrow> Some TypeError
      | PInt n \<Rightarrow> if FLOAT_LIMIT \<le> n then Some OverflowError else None
      | _ \<Rightarrow> None)"

fun first_error :: "pydict \<Rightarrow> (string \<times> real) list \<Rightarrow> exn option" where
  \<comment> \<open>the exception of the first weighted metric that raises one\<close>
  "first_error record [] = None"
| "first_error record ((metric, weight) # rest) =
     (case metric_error (get record metric PNull) of
        Some e \<Rightarrow> Some e
      | None \<Rightarrow> first_error record rest)"

definition metrics_in_range :: "pydict \<Rightarrow> bool" where
  \<comment> \<open>every weighted metric is missing, null, a float, or an int below the range limit\<close>
  "metrics_in_range record =
     list_all (\<lambda>(metric, weight). case get record metric PNull of
                                     PStr s \<Rightarrow> False
                                   | PInt n \<Rightarrow> n < FLOAT_LIMIT
                                   | _ \<Rightarrow> True) weights"

definition score_of :: "pydict \<Rightarrow> real" where
  \<comment> \<open>the confidence score of a processed record, when it is a number\<close>
  "score_of r = num_of (sort_key_of r)"

datatype backend_result =
    Failed string  \<comment> \<open>a result dict with a non-empty \<open>error\<close>\<close>
  | Rows "pydict list"  \<comment> \<open>a result dict with its \<open>records\<close> (none when the key is missing)\<close>

record ranked =
  \<comment> \<open>the dict with the keys \<open>count\<close>, \<open>records\<close>, \<open>analysis_type\<close>, \<open>metrics_included\<close>\<close>
  ranked_count :: nat
  ranked_records :: "pydict list"
  ranked_analysis_type :: string
  ranked_metrics_included :: "string list"

datatype processed =
    Unprocessed string  \<comment> \<open>the failed result, returned as it came\<close>
  | NoResults  \<comment> \<open>\<open>{"message": "No results found", "count": 0}\<close>\<close>
  | Ranked ranked

definition process_network_results ::
  "str_to_float \<Rightarrow> backend_result \<Rightarrow> string \<Rightarrow> exn + processed" where
  "process_network_results float_of_str result analysis_type =
     (case result of
        Failed msg \<Rightarrow> Inr (Unprocessed msg)
      | Rows recs \<Rightarrow>
          if recs = [] then Inr NoResults
          else
            (case process_records float_of_str analysis_type recs of
               Inl e \<Rightarrow> Inl e
             | Inr processed_records \<Rightarrow>
                 (case sort_by_confidence processed_records of
                    Inl e \<Rightarrow> Inl e
                  | Inr sorted_records \<Rightarrow>
                      Inr (Ranked \<lparr>ranked_count = length sorted_records,
                                   ranked_records = sorted_records,
                                   ranked_analysis_type = analysis_type,
                                   ranked_metrics_included = get_metrics_list analysis_type\<rparr>))))"

record config =
  \<comment> \<open>the fields of \<open>NetworkAnalysisConfig\<close> that the analysis reads\<close>
  cfg_analysis_types :: "string list"
  cfg_limit :: int

definition default_config :: config where
  "default_config = \<lparr>cfg_analysis_types = [''comprehensive''], cfg_limit = 20\<rparr>"

definition supported_types :: "string list" where
  "supported_types = [''comprehensive'', ''community'', ''centrality'',
                      ''shortest_path'', ''similarity'']"

definition validate_analysis_types :: "config \<Rightarrow> string list" where
  "validate_analysis_types cfg = filter (\<lambda>t. t \<in> set supported_types) (cfg_analysis_types cfg)"

definition query_map :: "(string \<times> string) list" where
  "query_map = [(''comprehensive'', ''comprehensive_network_analysis''),
                (''community'', ''find_related_by_centrality''),
                (''centrality'', ''pagerank''),
                (''shortest_path'', ''shortest_path''),
                (''similarity'', ''node_similarity'')]"

definition GDS_QUERY_TEMPLATES :: "string list" where
  \<comment> \<open>the keys of the template dict of \<open>utils/gds_queries.py\<close>\<close>
  "GDS_QUERY_TEMPLATES =
     [''create_projection'', ''degree_centrality'', ''betweenness_centrality'',
      ''closeness_centrality'', ''pagerank'', ''community_detection'', ''shortest_path'',
      ''node_similarity'', ''find_related_by_centrality'', ''comprehensive_network_analysis'',
      ''graph_exists'', ''drop_graph'', ''graph_info'', ''eigenvector_centrality'',
      ''triangles'', ''local_clustering_coefficient'', ''weakly_connected_components'',
      ''strongly_connected_components'']"

type_synonym neo4j_tool = "string \<Rightarrow> exn + backend_result"
  \<comment> \<open>What \<open>self.neo4j_tool(query, **params)\<close> does with the query of the named template
      under the parameters of the request: it raises or it returns a result dict, and
      answers the same query in the same way within one request. Only exceptions below
      \<open>Exception\<close> are modelled.\<close>

definition run_analysis_type :: "neo4j_tool \<Rightarrow> string \<Rightarrow> exn + backend_result" where
  "run_analysis_type tool analysis_type =
     (case map_of query_map analysis_type of
        None \<Rightarrow> Inl (ValueError (''Unsupported analysis type: '' @ analysis_type))
      | Some query_template \<Rightarrow>
          if query_template = [] \<or> query_template \<notin> set GDS_QUERY_TEMPLATES
          then Inl (ValueError (''Unsupported analysis type: '' @ analysis_type))
          else tool query_template)"

datatype entry =
    Entry processed  \<comment> \<open>what \<open>_process_network_results\<close> returned\<close>
  | ErrorMarker exn  \<comment> \<open>\<open>{"error": str(e)}\<close> for the exception \<open>e\<close>\<close>

definition analyse_one :: "str_to_float \<Rightarrow> neo4j_tool \<Rightarrow> string \<Rightarrow> entry" where
  \<comment> \<open>the body of the loop: the \<open>try\<close> block and its \<open>except Exception\<close>\<close>
  "analyse_one float_of_str tool analysis_type =
     (case run_analysis_type tool analysis_type of
        Inl e \<Rightarrow> ErrorMarker e
      | Inr result \<Rightarrow>
          (case process_network_results float_of_str result analysis_type of
             Inl e \<Rightarrow> ErrorMarker e
           | Inr p \<Rightarrow> Entry p))"

fun analyse_all ::
  "str_to_float \<Rightarrow> neo4j_tool \<Rightarrow> string list \<Rightarrow> (string \<rightharpoonup> entry) \<Rightarrow> (string \<rightharpoonup> entry)" where
  \<comment> \<open>the loop over \<open>analysis_types\<close>, filling the dict \<open>results\<close>\<close>
  "analyse_all float_of_str tool [] results = results"
| "analyse_all float_of_str tool (t # ts) results =
     analyse_all float_of_str tool ts (results(t \<mapsto> analyse_one float_of_str tool t))"

record report =
  \<comment> \<open>the returned dict: its keys \<open>input\<close>, \<open>analysis_types\<close> and \<open>results\<close>\<close>
  report_title_keyword :: "string option"
  report_work_id :: "string option"
  report_analysis_types :: "string list"
  report_results :: "string \<rightharpoonup> entry"

datatype response =
    ErrorResponse string  \<comment> \<open>\<open>{"error": message}\<close>\<close>
  | Report report

definition falsy :: "string option \<Rightarrow> bool" where
  \<comment> \<open>\<open>not s\<close> for an optional string: \<open>None\<close> or the empty string\<close>
  "falsy s = (s = None \<or> s = Some [])"

definition find_related_by_network_analysis ::
  "str_to_float \<Rightarrow> bool \<Rightarrow> neo4j_tool \<Rightarrow> string option \<Rightarrow> string option \<Rightarrow> config option
     \<Rightarrow> response" where
  \<comment> \<open>\<open>projection_ok\<close> is what \<open>self.ensure_graph_projection()\<close> returns\<close>
  "find_related_by_network_analysis float_of_str projection_ok tool title_keyword work_id cfg =
     (if falsy title_keyword \<and> falsy work_id
        then ErrorResponse ''Either title_keyword or work_id must be provided''
      else
        (let cfg = (case cfg of None \<Rightarrow> default_config | Some c \<Rightarrow> c)
         in if \<not> projection_ok
              then ErrorResponse ''Failed to create graph projection for network analysis''
            else
              (let analysis_types = validate_analysis_types cfg
               in Report \<lparr>report_title_keyword = title_keyword,
                           report_work_id = work_id,
                           report_analysis_types = analysis_types,
                           report_results =
                             analyse_all float_of_str tool analysis_types Map.empty\<rparr>)))"

section \<open>Substrings and first matches\<close>

lemma is_substring_iff: "is_substring sub s \<longleftrightarrow> (\<exists>pre post. s = pre @ sub @ post)"
proof (induction s)
  case Nil
  then show ?case by simp
next
  case (Cons c cs)
  show ?case
  proof
    assume "is_substring sub (c # cs)"
    then consider "prefix sub (c # cs)" | "is_substring sub cs" by auto
    then show "\<exists>pre post. c # cs = pre @ sub @ post"
    proof cases
      case 1
      then obtain post where "c # cs = sub @ post" by (auto simp: prefix_def)
      then have "c # cs = [] @ sub @ post" by simp
      then show ?thesis by blast
    next
      case 2
      with Cons.IH obtain pre post where "cs = pre @ sub @ post" by blast
      then have "c # cs = (c # pre) @ sub @ post" by simp
      then show ?thesis by blast
    qed
  next
    assume "\<exists>pre post. c # cs = pre @ sub @ post"
    then obtain pre post where e: "c # cs = pre @ sub @ post" by blast
    show "is_substring sub (c # cs)"
    proof (cases pre)
      case Nil
      with e have "prefix sub (c # cs)" by (simp add: prefix_def)
      then show ?thesis by simp
    next
      case (Cons p pre')
      with e have "cs = pre' @ sub @ post" by simp
      with Cons.IH have "is_substring sub cs" by blast
      then show ?thesis by simp
    qed
  qed
qed

lemma find_first_match:
  assumes "x \<in> set xs" and "P x"
  shows "\<exists>y. find P xs = Some y \<and> y \<in> set xs \<and> P y"
proof -
  from assms have "find P xs \<noteq> None" by (auto simp: find_None_iff)
  then obtain y where y: "find P xs = Some y" by blast
  then have "y \<in> set xs \<and> P y" by (auto simp: find_Some_iff)
  with y show ?thesis by blast
qed

lemma assert_read_only_rejects:
  assumes "kw \<in> set kws" and "is_substring kw (upper cypher)"
  shows "\<exists>k. k \<in> set kws \<and> is_substring k (upper cypher)
             \<and> assert_read_only kws cypher = Inl (ForbiddenKeyword k)"
proof -
  from find_first_match [OF assms(1), of "\<lambda>k. is_substring k (upper cypher)"] assms(2)
  obtain k where "find (\<lambda>k. is_substring k (upper cypher)) kws = Some k"
    and "k \<in> set kws" and "is_substring k (upper cypher)" by blast
  then show ?thesis by (auto simp: assert_read_only_def)
qed

lemma rqa_assert_read_only_rejects:
  assumes "kw \<in> set kws" and "is_substring kw (upper cypher)"
  shows "\<exists>k. k \<in> set kws \<and> is_substring k (upper cypher)
             \<and> rqa_assert_read_only kws cypher = Inl (ForbiddenKeyword k)"
proof -
  from find_first_match [OF assms(1), of "\<lambda>k. is_substring k (upper cypher)"] assms(2)
  obtain k where "find (\<lambda>k. is_substring k (upper cypher)) kws = Some k"
    and "k \<in> set kws" and "is_substring k (upper cypher)" by blast
  then show ?thesis by (auto simp: rqa_assert_read_only_def)
qed

lemma clean_blank: "strip cypher = [] \<Longrightarrow> clean cypher = []"
  by (simp add: clean_def)

lemma upper_char_not_lower: "upper_char c \<notin> set lowercase"
  by (auto simp: upper_char_def lowercase_def uppercase_def split: option.splits if_splits)

lemma upper_has_no_lowercase: "c \<in> set lowercase \<Longrightarrow> c \<notin> set (upper s)"
  using upper_char_not_lower by (auto simp: upper_def)

section \<open>The read-only check\<close>

text \<open>
  C10. \<open>assert_read_only\<close> matches forbidden keywords as raw substrings of the upper-cased
  query, in both validator classes: whenever the upper-cased query has a forbidden keyword
  as a contiguous piece, whatever stands before and after it (the rest of an identifier
  such as \<open>OFFSET\<close>, or of a quoted literal), the check rejects the query with a
  forbidden-keyword error that names a keyword of the set occurring in the query. The
  order \<open>kws\<close> in which the set is visited is arbitrary.
\<close>

theorem keyword_match_is_substring_match:
  "(set kws = set FORBIDDEN_KEYWORDS \<and> kw \<in> set FORBIDDEN_KEYWORDS
      \<and> upper cypher = pre @ kw @ post
    \<longrightarrow> (\<exists>k pre' post'. k \<in> set FORBIDDEN_KEYWORDS \<and> upper cypher = pre' @ k @ post'
           \<and> assert_read_only kws cypher = Inl (ForbiddenKeyword k)))
   \<and> (set kws = set RQA_FORBIDDEN_KEYWORDS \<and> kw \<in> set RQA_FORBIDDEN_KEYWORDS
      \<and> upper cypher = pre @ kw @ post
    \<longrightarrow> (\<exists>k pre' post'. k \<in> set RQA_FORBIDDEN_KEYWORDS \<and> upper cypher = pre' @ k @ post'
           \<and> rqa_assert_read_only kws cypher = Inl (ForbiddenKeyword k)))"
proof (intro conjI impI)
  assume a: "set kws = set FORBIDDEN_KEYWORDS \<and> kw \<in> set FORBIDDEN_KEYWORDS
      \<and> upper cypher = pre @ kw @ post"
  then have "kw \<in> set kws" and "is_substring kw (upper cypher)"
    by (auto simp: is_substring_iff)
  from assert_read_only_rejects [OF this] a
  show "\<exists>k pre' post'. k \<in> set FORBIDDEN_KEYWORDS \<and> upper cypher = pre' @ k @ post'
           \<and> assert_read_only kws cypher = Inl (ForbiddenKeyword k)"
    by (metis is_substring_iff)
next
  assume a: "set kws = set RQA_FORBIDDEN_KEYWORDS \<and> kw \<in> set RQA_FORBIDDEN_KEYWORDS
      \<and> upper cypher = pre @ kw @ post"
  then have "kw \<in> set kws" and "is_substring kw (upper cypher)"
    by (auto simp: is_substring_iff)
  from rqa_assert_read_only_rejects [OF this] a
  show "\<exists>k pre' post'. k \<in> set RQA_FORBIDDEN_KEYWORDS \<and> upper cypher = pre' @ k @ post'
           \<and> rqa_assert_read_only kws cypher = Inl (ForbiddenKeyword k)"
    by (metis is_substring_iff)
qed

lemma upper_offset_query:
  "upper ''MATCH (n) RETURN n SKIP 1 OFFSET 2'' = ''MATCH (N) RETURN N SKIP 1 OFF'' @ ''SET'' @ '' 2''"
  by code_simp

theorem keyword_match_is_substring_match_witness:
  "upper ''MATCH (n) RETURN n SKIP 1 OFFSET 2'' = ''MATCH (N) RETURN N SKIP 1 OFF'' @ ''SET'' @ '' 2''
   \<and> ''SET'' \<in> set FORBIDDEN_KEYWORDS \<and> ''SET'' \<in> set RQA_FORBIDDEN_KEYWORDS
   \<and> (\<exists>k pre' post'. k \<in> set FORBIDDEN_KEYWORDS
         \<and> upper ''MATCH (n) RETURN n SKIP 1 OFFSET 2'' = pre' @ k @ post'
         \<and> assert_read_only FORBIDDEN_KEYWORDS ''MATCH (n) RETURN n SKIP 1 OFFSET 2''
             = Inl (ForbiddenKeyword k))
   \<and> (\<exists>k pre' post'. k \<in> set RQA_FORBIDDEN_KEYWORDS
         \<and> upper ''MATCH (n) RETURN n SKIP 1 OFFSET 2'' = pre' @ k @ post'
         \<and> rqa_assert_read_only RQA_FORBIDDEN_KEYWORDS ''MATCH (n) RETURN n SKIP 1 OFFSET 2''
             = Inl (ForbiddenKeyword k))"
proof -
  have m1: "''SET'' \<in> set FORBIDDEN_KEYWORDS" by (simp add: FORBIDDEN_KEYWORDS_def)
  have m2: "''SET'' \<in> set RQA_FORBIDDEN_KEYWORDS" by (simp add: RQA_FORBIDDEN_KEYWORDS_def)
  from keyword_match_is_substring_match
         [of FORBIDDEN_KEYWORDS "''SET''" "''MATCH (n) RETURN n SKIP 1 OFFSET 2''"
             "''MATCH (N) RETURN N SKIP 1 OFF''" "'' 2''"]
       keyword_match_is_substring_match
         [of RQA_FORBIDDEN_KEYWORDS "''SET''" "''MATCH (n) RETURN n SKIP 1 OFFSET 2''"
             "''MATCH (N) RETURN N SKIP 1 OFF''" "'' 2''"]
       m1 m2 upper_offset_query
  show ?thesis by blast
qed

text \<open>
  C1, as amended. \<open>prepare_cypher\<close> strips the query, removes its comments and collapses
  its whitespace before it looks for keywords. Whenever the query cleaned in this way
  contains a forbidden keyword, in any letter case and at any position, \<open>prepare_cypher\<close>
  returns no prepared query: it rejects with a forbidden-keyword error naming a keyword of
  the set that occurs in the cleaned query.
\<close>

theorem prepare_cypher_rejects_forbidden_keyword:
  assumes "set kws = set FORBIDDEN_KEYWORDS"
    and "kw \<in> set FORBIDDEN_KEYWORDS"
    and "upper (clean raw) = pre @ kw @ post"
  shows "\<exists>k pre' post'. k \<in> set FORBIDDEN_KEYWORDS \<and> upper (clean raw) = pre' @ k @ post'
           \<and> prepare_cypher kws raw = Inl (ForbiddenKeyword k)"
proof -
  from assms(2) have "kw \<noteq> []" by (auto simp: FORBIDDEN_KEYWORDS_def)
  with assms(3) have "clean raw \<noteq> []" by (auto simp: upper_def)
  then have nonblank: "raw \<noteq> [] \<and> strip raw \<noteq> []"
    using clean_blank by (auto simp: strip_def)
  from assms have "kw \<in> set kws" and "is_substring kw (upper (clean raw))"
    by (auto simp: is_substring_iff)
  from assert_read_only_rejects [OF this]
  obtain k where k: "k \<in> set kws" "is_substring k (upper (clean raw))"
    "assert_read_only kws (clean raw) = Inl (ForbiddenKeyword k)" by blast
  from k(3) nonblank have "prepare_cypher kws raw = Inl (ForbiddenKeyword k)"
    by (simp add: prepare_cypher_def)
  with k(1,2) assms(1) show ?thesis by (metis is_substring_iff)
qed

lemma upper_clean_create_query:
  "upper (clean ''CREATE (n:Author) RETURN n'') = [] @ ''CREATE'' @ '' (N:AUTHOR) RETURN N''"
  by code_simp

theorem prepare_cypher_rejects_forbidden_keyword_witness:
  "''CREATE'' \<in> set FORBIDDEN_KEYWORDS
   \<and> upper (clean ''CREATE (n:Author) RETURN n'') = [] @ ''CREATE'' @ '' (N:AUTHOR) RETURN N''
   \<and> (\<exists>k pre' post'. k \<in> set FORBIDDEN_KEYWORDS
         \<and> upper (clean ''CREATE (n:Author) RETURN n'') = pre' @ k @ post'
         \<and> prepare_cypher FORBIDDEN_KEYWORDS ''CREATE (n:Author) RETURN n''
             = Inl (ForbiddenKeyword k))"
proof -
  have m: "''CREATE'' \<in> set FORBIDDEN_KEYWORDS" by (simp add: FORBIDDEN_KEYWORDS_def)
  from prepare_cypher_rejects_forbidden_keyword
         [OF refl m upper_clean_create_query] m upper_clean_create_query
  show ?thesis by blast
qed

text \<open>
  C1 as stated fails: a keyword that stands only inside a comment is removed with the
  comment before the check, and the query is prepared.
\<close>

theorem keyword_in_comment_is_accepted:
  "is_substring ''SET'' (upper ''MATCH (n) RETURN n // SET'')
   \<and> prepare_cypher FORBIDDEN_KEYWORDS ''MATCH (n) RETURN n // SET'' = Inr ''MATCH (n) RETURN n ''"
  by code_simp

section \<open>Full validation\<close>

text \<open>
  C2. \<open>validate_labels\<close> reads every \<open>:Name\<close> of the query as a node label, the type inside
  \<open>[:...]\<close> included, and knows node labels only. A query built from canonical labels, a
  canonical relationship type and a known property is therefore rejected by
  \<open>validate_full\<close> with a label error naming the relationship type, and so is the query
  that the test \<open>test_valid_labels\<close> expects \<open>validate_labels\<close> to accept. The validator
  of \<open>research_query_agent.py\<close> accepts the same query.
\<close>

theorem canonical_relationship_rejected_as_label:
  "validate_full FORBIDDEN_KEYWORDS
     ''MATCH (a:Author)-[:WORK_AUTHORED_BY]->(w:Work) RETURN a.name''
     = Inl (UnknownLabel ''WORK_AUTHORED_BY'')
   \<and> validate_labels
       ''MATCH (a:Author)-[:WORK_AUTHORED_BY]->(w:Work)-[:WORK_HAS_TOPIC]->(t:Topic) RETURN a, w, t''
     = Inl (UnknownLabel ''WORK_AUTHORED_BY'')
   \<and> rqa_prepare_cypher RQA_FORBIDDEN_KEYWORDS
       ''MATCH (a:Author)-[:WORK_AUTHORED_BY]->(w:Work) RETURN a.name''
     = Inr ''MATCH (a:Author)-[:WORK_AUTHORED_BY]->(w:Work) RETURN a.name''"
  by code_simp

text \<open>
  C6. \<open>validate_full\<close> looks for the mixed-case text \<open>CALL gds.\<close> in the upper-cased query.
  An upper-cased string has no lower-case letter, so the text is never found and the label
  and relationship checks run for every query: a query that calls a \<open>gds\<close> procedure and
  carries an unknown label is rejected with a label error.
\<close>

theorem gds_query_labels_are_checked:
  "\<not> is_substring ''CALL gds.'' (upper prepared)
   \<and> validate_full FORBIDDEN_KEYWORDS
       ''CALL gds.graph.list() YIELD graphName MATCH (n:Paper) RETURN n''
     = Inl (UnknownLabel ''Paper'')"
proof
  show "\<not> is_substring ''CALL gds.'' (upper prepared)"
  proof
    assume "is_substring ''CALL gds.'' (upper prepared)"
    then obtain pre post where "upper prepared = pre @ ''CALL gds.'' @ post"
      by (auto simp: is_substring_iff)
    then have "CHR ''g'' \<in> set (upper prepared)" by simp
    moreover have "CHR ''g'' \<in> set lowercase" by (simp add: lowercase_def)
    ultimately show False using upper_has_no_lowercase by blast
  qed
  show "validate_full FORBIDDEN_KEYWORDS
       ''CALL gds.graph.list() YIELD graphName MATCH (n:Paper) RETURN n''
     = Inl (UnknownLabel ''Paper'')"
    by code_simp
qed

section \<open>Alias normalization\<close>

text \<open>
  C8. \<open>normalize_relationships\<close> replaces the aliases one after the other in the order of
  the dict, and \<open>:AUTHORED\<close> comes before \<open>:AUTHORED_BY\<close>. The token \<open>:AUTHORED_BY\<close> is
  therefore rewritten to \<open>:WORK_AUTHORED_BY_BY\<close>: the normalized query has no token
  \<open>:WORK_AUTHORED_BY\<close>, and \<open>prepare_cypher\<close> of the same class rejects it as an unknown
  relationship.
\<close>

theorem authored_by_alias_is_mangled:
  "normalize_relationships ''MATCH (a:Author)-[:AUTHORED_BY]->(w:Work) RETURN a.name''
     = ''MATCH (a:Author)-[:WORK_AUTHORED_BY_BY]->(w:Work) RETURN a.name''
   \<and> rqa_findall_labels
       (normalize_relationships ''MATCH (a:Author)-[:AUTHORED_BY]->(w:Work) RETURN a.name'')
     = [''Author'', ''WORK_AUTHORED_BY_BY'', ''Work'']
   \<and> rqa_prepare_cypher RQA_FORBIDDEN_KEYWORDS
       ''MATCH (a:Author)-[:AUTHORED_BY]->(w:Work) RETURN a.name''
     = Inl (UnknownLabelOrRelationship ''WORK_AUTHORED_BY_BY'')"
  by code_simp

section \<open>The composite confidence score\<close>

lemma FLOAT_LIMIT_pos: "0 < FLOAT_LIMIT"
proof -
  have "(2::int) ^ 970 < 2 ^ 1024" by (rule power_strict_increasing) simp_all
  then show ?thesis by (simp add: FLOAT_LIMIT_def)
qed

lemma int_to_float_in_range:
  "0 < n \<Longrightarrow> n < FLOAT_LIMIT \<Longrightarrow> int_to_float n = Inr (real_of_int n)"
  using FLOAT_LIMIT_pos by (simp add: int_to_float_def)

lemma int_to_float_overflow: "FLOAT_LIMIT \<le> n \<Longrightarrow> int_to_float n = Inl OverflowError"
  by (simp add: int_to_float_def)

lemma accumulate_eq:
  "accumulate record ws (score, total_weight) =
     (case first_error record ws of
        Some e \<Rightarrow> Inl e
      | None \<Rightarrow>
          Inr (score + (\<Sum>(metric, weight)\<leftarrow>counted record ws. weight * num_of (get record metric PNull)),
               total_weight + (\<Sum>(metric, weight)\<leftarrow>counted record ws. weight)))"
proof (induction ws arbitrary: score total_weight)
  case Nil
  then show ?case by (simp add: counted_def)
next
  case (Cons mw ws)
  obtain metric weight where mw: "mw = (metric, weight)" by (cases mw)
  show ?case
  proof (cases "get record metric PNull")
    case PNull
    with Cons mw show ?thesis
      by (simp add: counted_def is_num_def num_of_def metric_error_def split: option.splits)
  next
    case (PFloat v)
    with Cons mw show ?thesis
      by (simp add: counted_def is_num_def num_of_def metric_error_def algebra_simps
          split: option.splits)
  next
    case (PStr s)
    with mw show ?thesis by (simp add: metric_error_def)
  next
    case (PInt n)
    consider "n \<le> 0" | "0 < n" "n < FLOAT_LIMIT" | "FLOAT_LIMIT \<le> n" by linarith
    then show ?thesis
    proof cases
      case 1
      with FLOAT_LIMIT_pos have "\<not> FLOAT_LIMIT \<le> n" by simp
      with 1 PInt Cons mw show ?thesis
        by (simp add: counted_def is_num_def num_of_def metric_error_def split: option.splits)
    next
      case 2
      with PInt Cons mw int_to_float_in_range [OF 2] show ?thesis
        by (simp add: counted_def is_num_def num_of_def metric_error_def algebra_simps
          split: option.splits)
    next
      case 3
      with FLOAT_LIMIT_pos have "0 < n" by simp
      with 3 PInt mw int_to_float_overflow [OF 3] show ?thesis
        by (simp add: metric_error_def)
    qed
  qed
qed

lemma first_error_None_iff:
  "first_error record ws = None \<longleftrightarrow>
     list_all (\<lambda>(metric, weight). case get record metric PNull of
                                     PStr s \<Rightarrow> False
                                   | PInt n \<Rightarrow> n < FLOAT_LIMIT
                                   | _ \<Rightarrow> True) ws"
proof (induction ws)
  case Nil
  then show ?case by simp
next
  case (Cons mw ws)
  obtain metric weight where mw: "mw = (metric, weight)" by (cases mw)
  with Cons show ?case
    by (cases "get record metric PNull") (auto simp: metric_error_def)
qed

lemma sum_list_pos:
  fixes f :: "'a \<Rightarrow> real"
  assumes "xs \<noteq> []" and "\<And>x. x \<in> set xs \<Longrightarrow> 0 < f x"
  shows "0 < sum_list (map f xs)"
proof (cases xs)
  case Nil
  with assms(1) show ?thesis by simp
next
  case (Cons a as)
  have "0 \<le> sum_list (map f as)"
    using assms(2) Cons by (intro sum_list_nonneg) (auto intro: less_imp_le)
  moreover have "0 < f a" using assms(2) Cons by simp
  ultimately show ?thesis using Cons by simp
qed

lemma weights_positive: "(metric, weight) \<in> set weights \<Longrightarrow> 0 < weight"
  by (auto simp: weights_def)

lemma counted_props:
  assumes "(metric, weight) \<in> set (counted record weights)"
  shows "0 < weight" "0 < weight * num_of (get record metric PNull)"
proof -
  from assms have w: "(metric, weight) \<in> set weights"
    and v: "0 < num_of (get record metric PNull)"
    by (auto simp: counted_def)
  from w show "0 < weight" by (rule weights_positive)
  with v show "0 < weight * num_of (get record metric PNull)" by simp
qed

lemma calculate_composite_confidence_eq:
  "calculate_composite_confidence record =
     (case first_error record weights of
        Some e \<Rightarrow> Inl e
      | None \<Rightarrow> Inr (reference_confidence record))"
proof (cases "first_error record weights")
  case (Some e)
  then show ?thesis
    by (simp add: calculate_composite_confidence_def accumulate_eq)
next
  case None
  show ?thesis
  proof (cases "counted record weights = []")
    case True
    with None show ?thesis
      by (simp add: calculate_composite_confidence_def accumulate_eq
          reference_confidence_def Let_def)
  next
    case nonempty: False
    have "0 < (\<Sum>(metric, weight)\<leftarrow>counted record weights. weight)"
      using nonempty counted_props(1) by (intro sum_list_pos) auto
    with None nonempty show ?thesis
      by (simp add: calculate_composite_confidence_def accumulate_eq
          reference_confidence_def Let_def)
  qed
qed

lemma reference_confidence_bounds:
  shows "0 \<le> reference_confidence record"
    "reference_confidence record \<le> 1"
    "counted record weights = [] \<Longrightarrow> reference_confidence record = 0"
proof -
  define present where "present = counted record weights"
  define base where "base = (if present = [] then 0
                  else (\<Sum>(metric, weight)\<leftarrow>present. weight * num_of (get record metric PNull))
                       / (\<Sum>(metric, weight)\<leftarrow>present. weight))"
  define boosted where
    "boosted = (if get record ''community_id'' PNull \<noteq> PNull then base * (12 / 10) else base)"
  have r: "reference_confidence record = min boosted 1"
    by (simp add: reference_confidence_def Let_def present_def base_def boosted_def)
  have "0 \<le> base"
  proof (cases "present = []")
    case True
    then show ?thesis by (simp add: base_def)
  next
    case False
    have "0 < (\<Sum>(metric, weight)\<leftarrow>present. weight)"
      using False counted_props(1) unfolding present_def by (intro sum_list_pos) auto
    moreover have "0 < (\<Sum>(metric, weight)\<leftarrow>present. weight * num_of (get record metric PNull))"
      using False counted_props(2) unfolding present_def by (intro sum_list_pos) auto
    ultimately show ?thesis using False by (simp add: base_def)
  qed
  then have "0 \<le> boosted" by (simp add: boosted_def)
  with r show "0 \<le> reference_confidence record" by simp
  from r show "reference_confidence record \<le> 1" by simp
  show "reference_confidence record = 0" if "counted record weights = []"
    using that r by (simp add: boosted_def base_def present_def)
qed

lemma huge_ge_limit: "FLOAT_LIMIT \<le> 2 ^ 1024"
  by (simp add: FLOAT_LIMIT_def)

text \<open>
  C3, as amended. For every record whose weighted metrics are missing, null, floats or
  ints below the range limit of a double, \<open>_calculate_composite_confidence\<close> returns
  the reference value: the sum of weight times value over the weighted metrics that are
  present and strictly greater than 0, divided by the sum of their weights (0 when there
  is none), multiplied by 1.2 when \<open>community_id\<close> is not null, clamped to at most 1.
  Otherwise it raises the exception of the first weighted metric that raises one:
  \<open>TypeError\<close> for a string, \<open>OverflowError\<close> for an int at or above the limit. The
  record of the specification's example, with degree centrality 0.5, no betweenness,
  closeness 0, PageRank 0.8 and community 3, gets
  \<open>((0.2 * 0.5 + 0.3 * 0.8) / 0.5) * 1.2 = 0.816\<close>.
\<close>

theorem composite_confidence_formula:
  "calculate_composite_confidence record =
     (case first_error record weights of
        Some e \<Rightarrow> Inl e
      | None \<Rightarrow> Inr (reference_confidence record))
   \<and> (first_error record weights = None) = metrics_in_range record
   \<and> calculate_composite_confidence
       [''degree_centrality'' \<mapsto> PFloat (5 / 10), ''betweenness_centrality'' \<mapsto> PNull,
        ''closeness_centrality'' \<mapsto> PFloat 0, ''pagerank_score'' \<mapsto> PFloat (8 / 10),
        ''community_id'' \<mapsto> PInt 3] = Inr (816 / 1000)"
proof (intro conjI)
  show "calculate_composite_confidence record =
     (case first_error record weights of
        Some e \<Rightarrow> Inl e
      | None \<Rightarrow> Inr (reference_confidence record))"
    by (rule calculate_composite_confidence_eq)
  show "(first_error record weights = None) = metrics_in_range record"
    by (simp add: first_error_None_iff metrics_in_range_def)
  show "calculate_composite_confidence
       [''degree_centrality'' \<mapsto> PFloat (5 / 10), ''betweenness_centrality'' \<mapsto> PNull,
        ''closeness_centrality'' \<mapsto> PFloat 0, ''pagerank_score'' \<mapsto> PFloat (8 / 10),
        ''community_id'' \<mapsto> PInt 3] = Inr (816 / 1000)"
    by (simp add: calculate_composite_confidence_def weights_def get_def)
qed

text \<open>
  C3 as stated fails on its example, whose score is 0.816 and not 1, and on a record
  with an int metric beyond the range of a double, for which no score is returned.
\<close>

theorem example_is_not_one_and_huge_int_raises:
  "calculate_composite_confidence
       [''degree_centrality'' \<mapsto> PFloat (5 / 10), ''betweenness_centrality'' \<mapsto> PNull,
        ''closeness_centrality'' \<mapsto> PFloat 0, ''pagerank_score'' \<mapsto> PFloat (8 / 10),
        ''community_id'' \<mapsto> PInt 3] = Inr (816 / 1000)
   \<and> calculate_composite_confidence
       [''degree_centrality'' \<mapsto> PFloat (5 / 10), ''betweenness_centrality'' \<mapsto> PNull,
        ''closeness_centrality'' \<mapsto> PFloat 0, ''pagerank_score'' \<mapsto> PFloat (8 / 10),
        ''community_id'' \<mapsto> PInt 3] \<noteq> Inr 1
   \<and> calculate_composite_confidence [''pagerank_score'' \<mapsto> PInt (2 ^ 1024)]
       = Inl OverflowError"
proof -
  have "0 < (10::int) ^ 400" by simp
  with int_to_float_overflow [OF huge_ge_limit]
  have "calculate_composite_confidence [''pagerank_score'' \<mapsto> PInt (2 ^ 1024)]
       = Inl OverflowError"
    by (simp add: calculate_composite_confidence_def weights_def get_def)
  then show ?thesis
    by (simp add: calculate_composite_confidence_def weights_def get_def)
qed

text \<open>
  C4, as amended. For every record whose weighted metrics are missing, null, floats of
  any size or ints below the range limit of a double, the composite confidence score is
  returned and lies between 0 and 1; it is 0 when no weighted metric is present and
  positive; the bound 1 holds with the community bonus as well.
\<close>

theorem composite_confidence_bounds:
  assumes "metrics_in_range record"
  shows "\<exists>c. calculate_composite_confidence record = Inr c \<and> 0 \<le> c \<and> c \<le> 1
            \<and> (counted record weights = [] \<longrightarrow> c = 0)"
proof -
  from assms have "first_error record weights = None"
    by (simp add: first_error_None_iff metrics_in_range_def)
  then show ?thesis
    using reference_confidence_bounds by (simp add: calculate_composite_confidence_eq)
qed

theorem composite_confidence_bounds_witness:
  "metrics_in_range [''degree_centrality'' \<mapsto> PInt 1000, ''pagerank_score'' \<mapsto> PFloat 1,
                     ''community_id'' \<mapsto> PInt 7]
   \<and> (\<exists>c. calculate_composite_confidence
             [''degree_centrality'' \<mapsto> PInt 1000, ''pagerank_score'' \<mapsto> PFloat 1,
              ''community_id'' \<mapsto> PInt 7] = Inr c
          \<and> 0 \<le> c \<and> c \<le> 1
          \<and> (counted [''degree_centrality'' \<mapsto> PInt 1000, ''pagerank_score'' \<mapsto> PFloat 1,
                       ''community_id'' \<mapsto> PInt 7] weights = []
               \<longrightarrow> c = 0))"
proof -
  have "(1000::int) < 2 ^ 10" by simp
  also have "(2::int) ^ 10 < 2 ^ 1023" by (rule power_strict_increasing) simp_all
  also have "(2::int) ^ 1023 \<le> FLOAT_LIMIT"
  proof -
    have "(2::int) ^ 970 \<le> 2 ^ 1023" by (rule power_increasing) simp_all
    moreover have "(2::int) ^ 1024 = 2 * 2 ^ 1023" by simp
    ultimately show ?thesis by (simp add: FLOAT_LIMIT_def)
  qed
  finally have "(1000::int) < FLOAT_LIMIT" .
  then have h: "metrics_in_range [''degree_centrality'' \<mapsto> PInt 1000, ''pagerank_score'' \<mapsto> PFloat 1,
                     ''community_id'' \<mapsto> PInt 7]"
    by (simp add: metrics_in_range_def weights_def get_def)
  from composite_confidence_bounds [OF h] h show ?thesis by blast
qed

text \<open>
  C4 as stated fails for an arbitrarily large int: \<open>float(value)\<close> raises
  \<open>OverflowError\<close> and no score is returned.
\<close>

theorem huge_int_metric_raises_overflow:
  "(0::int) < 2 ^ 1024
   \<and> calculate_composite_confidence [''degree_centrality'' \<mapsto> PInt (2 ^ 1024)]
       = Inl OverflowError"
proof -
  have "0 < (10::int) ^ 400" by simp
  with int_to_float_overflow [OF huge_ge_limit]
  show ?thesis
    by (simp add: calculate_composite_confidence_def weights_def get_def)
qed

section \<open>Ranking\<close>

lemma sort_reverse_mset: "mset (sort_reverse key xs) = mset xs"
  by (simp add: sort_reverse_def)

lemma sort_reverse_sorted:
  "sorted_wrt (\<lambda>a b. key a \<ge> key b) (sort_reverse key xs)"
proof -
  have "sorted (map key (sort_key key (rev xs)))" by (rule sorted_sort_key)
  then have "sorted_wrt (\<lambda>a b. key a \<le> key b) (sort_key key (rev xs))"
    by (simp add: sorted_map)
  then show ?thesis by (simp add: sort_reverse_def sorted_wrt_rev)
qed

lemma sort_reverse_stable:
  "filter (\<lambda>y. key y = k) (sort_reverse key xs) = filter (\<lambda>y. key y = k) xs"
proof -
  have "filter (\<lambda>y. key y = k) (sort_reverse key xs)
        = rev (filter (\<lambda>y. key y = k) (sort_key key (rev xs)))"
    by (simp add: sort_reverse_def rev_filter)
  also have "\<dots> = rev (filter (\<lambda>y. key y = k) (rev xs))"
    by (simp only: sort_key_stable)
  also have "\<dots> = filter (\<lambda>y. key y = k) xs" by (simp add: rev_filter)
  finally show ?thesis .
qed

lemma sort_by_confidence_numeric:
  assumes "list_all (\<lambda>r. is_num (sort_key_of r)) rs"
  shows "\<exists>out. sort_by_confidence rs = Inr out \<and> mset out = mset rs
           \<and> sorted_wrt (\<lambda>a b. score_of a \<ge> score_of b) out
           \<and> (\<forall>c. filter (\<lambda>r. score_of r = c) out = filter (\<lambda>r. score_of r = c) rs)"
proof (cases "length rs < 2")
  case True
  then have "rs = [] \<or> (\<exists>x. rs = [x])"
    by (cases rs) (auto simp: length_Suc_conv less_Suc_eq numeral_2_eq_2)
  moreover from True have "sort_by_confidence rs = Inr rs" by (simp add: sort_by_confidence_def)
  ultimately show ?thesis by auto
next
  case False
  with assms have "sort_by_confidence rs = Inr (sort_reverse score_of rs)"
    by (simp add: sort_by_confidence_def score_of_def [abs_def])
  then show ?thesis
    using sort_reverse_mset [of score_of rs] sort_reverse_sorted [of score_of rs]
      sort_reverse_stable [of score_of _ rs] by simp
qed

lemma confidence_of_numeric:
  assumes "t \<noteq> ''community''" and "confidence_of f t r = Inr c"
  shows "is_num c"
  using assms
  by (auto simp: confidence_of_def is_num_def split: if_splits sum.splits)

lemma process_records_numeric:
  assumes "t \<noteq> ''community''"
  shows "process_records f t recs = Inr prs \<Longrightarrow> list_all (\<lambda>r. is_num (sort_key_of r)) prs"
proof (induction recs arbitrary: prs)
  case Nil
  then show ?case by simp
next
  case (Cons r recs)
  from Cons.prems obtain c rest where c: "confidence_of f t r = Inr c"
    and rest: "process_records f t recs = Inr rest"
    and prs: "prs = r(''confidence_score'' \<mapsto> c) # rest"
    by (auto split: sum.splits)
  from confidence_of_numeric [OF assms c]
  have "is_num (sort_key_of (r(''confidence_score'' \<mapsto> c)))"
    by (simp add: sort_key_of_def get_def)
  with Cons.IH [OF rest] prs show ?case by simp
qed

text \<open>
  C5, as amended. For every list of processed records of one analysis request whose
  confidence scores are numbers (they always are, except for the kind \<open>community\<close>,
  which takes the score from the backend's record), \<open>_process_network_results\<close>
  returns the same records sorted by confidence score in descending order, and records
  of equal score keep the order in which they were processed: the sort is stable and has
  no other key.
\<close>

theorem ranked_records_sorted_stable:
  assumes "recs \<noteq> []"
    and "process_records f t recs = Inr processed_records"
    and "t \<noteq> ''community'' \<or> list_all (\<lambda>r. is_num (sort_key_of r)) processed_records"
  shows "\<exists>rk. process_network_results f (Rows recs) t = Inr (Ranked rk)
           \<and> mset (ranked_records rk) = mset processed_records
           \<and> sorted_wrt (\<lambda>a b. score_of a \<ge> score_of b) (ranked_records rk)
           \<and> (\<forall>c. filter (\<lambda>r. score_of r = c) (ranked_records rk)
                   = filter (\<lambda>r. score_of r = c) processed_records)"
proof -
  from assms(2,3) have "list_all (\<lambda>r. is_num (sort_key_of r)) processed_records"
    using process_records_numeric by blast
  from sort_by_confidence_numeric [OF this]
  obtain out where out: "sort_by_confidence processed_records = Inr out"
    "mset out = mset processed_records" "sorted_wrt (\<lambda>a b. score_of a \<ge> score_of b) out"
    "\<forall>c. filter (\<lambda>r. score_of r = c) out = filter (\<lambda>r. score_of r = c) processed_records"
    by blast
  from assms(1,2) out(1) have "process_network_results f (Rows recs) t =
      Inr (Ranked \<lparr>ranked_count = length out, ranked_records = out,
                   ranked_analysis_type = t, ranked_metrics_included = get_metrics_list t\<rparr>)"
    by (simp add: process_network_results_def)
  with out(2-4) show ?thesis by simp
qed

lemma example_processed_records:
  "process_records (\<lambda>s. None) ''centrality''
     [[''title'' \<mapsto> PStr ''B'', ''pagerank_score'' \<mapsto> PFloat (1 / 2)],
      [''title'' \<mapsto> PStr ''A'', ''pagerank_score'' \<mapsto> PFloat (1 / 2)],
      [''title'' \<mapsto> PStr ''C'', ''pagerank_score'' \<mapsto> PFloat (9 / 10)]]
   = Inr [[''title'' \<mapsto> PStr ''B'', ''pagerank_score'' \<mapsto> PFloat (1 / 2),
           ''confidence_score'' \<mapsto> PFloat (1 / 2)],
          [''title'' \<mapsto> PStr ''A'', ''pagerank_score'' \<mapsto> PFloat (1 / 2),
           ''confidence_score'' \<mapsto> PFloat (1 / 2)],
          [''title'' \<mapsto> PStr ''C'', ''pagerank_score'' \<mapsto> PFloat (9 / 10),
           ''confidence_score'' \<mapsto> PFloat (9 / 10)]]"
  by (simp add: confidence_of_def get_main_metric_def metric_map_def get_def)

lemma example_scores_numeric:
  "list_all (\<lambda>r. is_num (sort_key_of r))
     [[''title'' \<mapsto> PStr ''B'', ''pagerank_score'' \<mapsto> PFloat (1 / 2),
       ''confidence_score'' \<mapsto> PFloat (1 / 2)],
      [''title'' \<mapsto> PStr ''A'', ''pagerank_score'' \<mapsto> PFloat (1 / 2),
       ''confidence_score'' \<mapsto> PFloat (1 / 2)],
      [''title'' \<mapsto> PStr ''C'', ''pagerank_score'' \<mapsto> PFloat (9 / 10),
       ''confidence_score'' \<mapsto> PFloat (9 / 10)]]"
  by (simp add: sort_key_of_def get_def is_num_def)

theorem ranked_records_sorted_stable_witness:
  "\<exists>rk. process_network_results (\<lambda>s. None)
       (Rows [[''title'' \<mapsto> PStr ''B'', ''pagerank_score'' \<mapsto> PFloat (1 / 2)],
              [''title'' \<mapsto> PStr ''A'', ''pagerank_score'' \<mapsto> PFloat (1 / 2)],
              [''title'' \<mapsto> PStr ''C'', ''pagerank_score'' \<mapsto> PFloat (9 / 10)]]) ''centrality''
       = Inr (Ranked rk)
     \<and> sorted_wrt (\<lambda>a b. score_of a \<ge> score_of b) (ranked_records rk)
     \<and> filter (\<lambda>r. score_of r = 1 / 2) (ranked_records rk)
       = [[''title'' \<mapsto> PStr ''B'', ''pagerank_score'' \<mapsto> PFloat (1 / 2),
           ''confidence_score'' \<mapsto> PFloat (1 / 2)],
          [''title'' \<mapsto> PStr ''A'', ''pagerank_score'' \<mapsto> PFloat (1 / 2),
           ''confidence_score'' \<mapsto> PFloat (1 / 2)]]"
proof -
  have ne: "[[''title'' \<mapsto> PStr ''B'', ''pagerank_score'' \<mapsto> PFloat (1 / 2)],
             [''title'' \<mapsto> PStr ''A'', ''pagerank_score'' \<mapsto> PFloat (1 / 2)],
             [''title'' \<mapsto> PStr ''C'', ''pagerank_score'' \<mapsto> PFloat (9 / 10)]] \<noteq> []"
    by simp
  from ranked_records_sorted_stable [OF ne example_processed_records disjI2 [OF example_scores_numeric]]
  obtain rk where rk: "process_network_results (\<lambda>s. None)
       (Rows [[''title'' \<mapsto> PStr ''B'', ''pagerank_score'' \<mapsto> PFloat (1 / 2)],
              [''title'' \<mapsto> PStr ''A'', ''pagerank_score'' \<mapsto> PFloat (1 / 2)],
              [''title'' \<mapsto> PStr ''C'', ''pagerank_score'' \<mapsto> PFloat (9 / 10)]]) ''centrality''
       = Inr (Ranked rk)"
    and s: "sorted_wrt (\<lambda>a b. score_of a \<ge> score_of b) (ranked_records rk)"
    and f: "\<forall>c. filter (\<lambda>r. score_of r = c) (ranked_records rk)
       = filter (\<lambda>r. score_of r = c)
          [[''title'' \<mapsto> PStr ''B'', ''pagerank_score'' \<mapsto> PFloat (1 / 2),
           ''confidence_score'' \<mapsto> PFloat (1 / 2)],
          [''title'' \<mapsto> PStr ''A'', ''pagerank_score'' \<mapsto> PFloat (1 / 2),
           ''confidence_score'' \<mapsto> PFloat (1 / 2)],
          [''title'' \<mapsto> PStr ''C'', ''pagerank_score'' \<mapsto> PFloat (9 / 10),
           ''confidence_score'' \<mapsto> PFloat (9 / 10)]]"
    by blast
  have "filter (\<lambda>r. score_of r = 1 / 2)
          [[''title'' \<mapsto> PStr ''B'', ''pagerank_score'' \<mapsto> PFloat (1 / 2),
           ''confidence_score'' \<mapsto> PFloat (1 / 2)],
          [''title'' \<mapsto> PStr ''A'', ''pagerank_score'' \<mapsto> PFloat (1 / 2),
           ''confidence_score'' \<mapsto> PFloat (1 / 2)],
          [''title'' \<mapsto> PStr ''C'', ''pagerank_score'' \<mapsto> PFloat (9 / 10),
           ''confidence_score'' \<mapsto> PFloat (9 / 10)]]
       = [[''title'' \<mapsto> PStr ''B'', ''pagerank_score'' \<mapsto> PFloat (1 / 2),
           ''confidence_score'' \<mapsto> PFloat (1 / 2)],
          [''title'' \<mapsto> PStr ''A'', ''pagerank_score'' \<mapsto> PFloat (1 / 2),
           ''confidence_score'' \<mapsto> PFloat (1 / 2)]]"
    by (simp add: score_of_def sort_key_of_def get_def num_of_def)
  with spec [OF f, of "1 / 2"]
  have "filter (\<lambda>r. score_of r = 1 / 2) (ranked_records rk)
       = [[''title'' \<mapsto> PStr ''B'', ''pagerank_score'' \<mapsto> PFloat (1 / 2),
           ''confidence_score'' \<mapsto> PFloat (1 / 2)],
          [''title'' \<mapsto> PStr ''A'', ''pagerank_score'' \<mapsto> PFloat (1 / 2),
           ''confidence_score'' \<mapsto> PFloat (1 / 2)]]"
    by (rule trans)
  with rk s show ?thesis by blast
qed

text \<open>
  C5 as stated fails: two records of equal score come back in the order of the input,
  here title \<open>B\<close> before title \<open>A\<close>.
\<close>

theorem equal_scores_keep_input_order:
  "process_network_results (\<lambda>s. None)
     (Rows [[''title'' \<mapsto> PStr ''B'', ''pagerank_score'' \<mapsto> PFloat (1 / 2)],
            [''title'' \<mapsto> PStr ''A'', ''pagerank_score'' \<mapsto> PFloat (1 / 2)]]) ''centrality''
   = Inr (Ranked \<lparr>ranked_count = 2,
        ranked_records =
          [[''title'' \<mapsto> PStr ''B'', ''pagerank_score'' \<mapsto> PFloat (1 / 2),
            ''confidence_score'' \<mapsto> PFloat (1 / 2)],
           [''title'' \<mapsto> PStr ''A'', ''pagerank_score'' \<mapsto> PFloat (1 / 2),
            ''confidence_score'' \<mapsto> PFloat (1 / 2)]],
        ranked_analysis_type = ''centrality'',
        ranked_metrics_included = [''pagerank_score'']\<rparr>)
   \<and> ''A'' < ''B''"
  by (simp add: process_network_results_def confidence_of_def get_main_metric_def metric_map_def
      get_def sort_by_confidence_def sort_key_of_def is_num_def num_of_def sort_reverse_def
      get_metrics_list_def)

section \<open>Isolation of failures between analysis kinds\<close>

lemma analyse_all_lookup:
  "analyse_all f tool ts results t = (if t \<in> set ts then Some (analyse_one f tool t) else results t)"
  by (induction ts arbitrary: results) auto

lemma run_supported:
  assumes "t \<in> set supported_types"
  shows "\<exists>q. map_of query_map t = Some q \<and> run_analysis_type tool t = tool q"
  using assms
  by (auto simp: supported_types_def query_map_def run_analysis_type_def GDS_QUERY_TEMPLATES_def)

text \<open>
  C9. For a request that names a title keyword or a work id and whose graph projection
  is ensured, \<open>find_related_by_network_analysis\<close> returns a report and does not raise.
  For every supported analysis kind of the request, the results hold an error marker
  with the exception when the backend call of that kind raised, and otherwise what
  \<open>_process_network_results\<close> made of the backend's answer (an error marker again should
  the processing itself raise), whatever happened to the other kinds.
\<close>

theorem analysis_failures_are_isolated:
  assumes "\<not> (falsy title_keyword \<and> falsy work_id)" and "projection_ok"
  shows "\<exists>rep. find_related_by_network_analysis f projection_ok tool title_keyword work_id cfg
                 = Report rep
           \<and> report_analysis_types rep
               = validate_analysis_types (case cfg of None \<Rightarrow> default_config | Some c \<Rightarrow> c)
           \<and> (\<forall>t \<in> set (report_analysis_types rep). \<exists>q. map_of query_map t = Some q
                 \<and> (\<forall>e. tool q = Inl e \<longrightarrow> report_results rep t = Some (ErrorMarker e))
                 \<and> (\<forall>result. tool q = Inr result \<longrightarrow>
                       report_results rep t =
                         Some (case process_network_results f result t of
                                 Inl e \<Rightarrow> ErrorMarker e | Inr p \<Rightarrow> Entry p)))"
proof -
  define c where "c = (case cfg of None \<Rightarrow> default_config | Some c \<Rightarrow> c)"
  define rep where "rep = \<lparr>report_title_keyword = title_keyword, report_work_id = work_id,
      report_analysis_types = validate_analysis_types c,
      report_results = analyse_all f tool (validate_analysis_types c) Map.empty\<rparr>"
  from assms have r: "find_related_by_network_analysis f projection_ok tool title_keyword work_id cfg
      = Report rep"
    by (simp add: find_related_by_network_analysis_def rep_def c_def Let_def)
  have "\<exists>q. map_of query_map t = Some q
          \<and> (\<forall>e. tool q = Inl e \<longrightarrow> report_results rep t = Some (ErrorMarker e))
          \<and> (\<forall>result. tool q = Inr result \<longrightarrow>
                report_results rep t =
                  Some (case process_network_results f result t of
                          Inl e \<Rightarrow> ErrorMarker e | Inr p \<Rightarrow> Entry p))"
    if t: "t \<in> set (report_analysis_types rep)" for t
  proof -
    from t have sup: "t \<in> set supported_types" and inl: "t \<in> set (validate_analysis_types c)"
      by (auto simp: rep_def validate_analysis_types_def)
    from run_supported [OF sup, of tool]
    obtain q where q: "map_of query_map t = Some q" "run_analysis_type tool t = tool q" by blast
    from inl have res: "report_results rep t = Some (analyse_one f tool t)"
      by (simp add: rep_def analyse_all_lookup)
    from q(2) res have "\<forall>e. tool q = Inl e \<longrightarrow> report_results rep t = Some (ErrorMarker e)"
      by (simp add: analyse_one_def)
    moreover from q(2) res have "\<forall>result. tool q = Inr result \<longrightarrow>
                report_results rep t =
                  Some (case process_network_results f result t of
                          Inl e \<Rightarrow> ErrorMarker e | Inr p \<Rightarrow> Entry p)"
      by (simp add: analyse_one_def)
    ultimately show ?thesis using q(1) by blast
  qed
  with r show ?thesis by (auto simp: rep_def c_def)
qed

theorem analysis_failures_are_isolated_witness:
  "\<exists>rep. find_related_by_network_analysis (\<lambda>s. None) True
       (\<lambda>q. if q = ''pagerank''
             then Inr (Rows [[''title'' \<mapsto> PStr ''A'', ''pagerank_score'' \<mapsto> PFloat (1 / 2)]])
             else Inl (BackendError ''timeout''))
       (Some ''graph'') None
       (Some \<lparr>cfg_analysis_types = [''centrality'', ''community''], cfg_limit = 20\<rparr>)
     = Report rep
   \<and> report_analysis_types rep = [''centrality'', ''community'']
   \<and> report_results rep ''community'' = Some (ErrorMarker (BackendError ''timeout''))
   \<and> report_results rep ''centrality'' =
       Some (Entry (Ranked \<lparr>ranked_count = 1,
          ranked_records = [[''title'' \<mapsto> PStr ''A'', ''pagerank_score'' \<mapsto> PFloat (1 / 2),
                             ''confidence_score'' \<mapsto> PFloat (1 / 2)]],
          ranked_analysis_type = ''centrality'',
          ranked_metrics_included = [''pagerank_score'']\<rparr>))"
proof -
  let ?tool = "\<lambda>q. if q = ''pagerank''
             then Inr (Rows [[''title'' \<mapsto> PStr ''A'', ''pagerank_score'' \<mapsto> PFloat (1 / 2)]])
             else Inl (BackendError ''timeout'')"
  let ?cfg = "Some \<lparr>cfg_analysis_types = [''centrality'', ''community''], cfg_limit = 20\<rparr>"
  have h1: "\<not> (falsy (Some ''graph'') \<and> falsy None)" by (simp add: falsy_def)
  have h2: "True" by simp
  from analysis_failures_are_isolated [OF h1 h2, where tool = ?tool and cfg = ?cfg
         and f = "\<lambda>s. None"]
  obtain rep where rep: "find_related_by_network_analysis (\<lambda>s. None) True ?tool (Some ''graph'') None ?cfg
      = Report rep"
    and types: "report_analysis_types rep
       = validate_analysis_types (case ?cfg of None \<Rightarrow> default_config | Some c \<Rightarrow> c)"
    and each: "\<forall>t \<in> set (report_analysis_types rep). \<exists>q. map_of query_map t = Some q
                 \<and> (\<forall>e. ?tool q = Inl e \<longrightarrow> report_results rep t = Some (ErrorMarker e))
                 \<and> (\<forall>result. ?tool q = Inr result \<longrightarrow>
                       report_results rep t =
                         Some (case process_network_results (\<lambda>s. None) result t of
                                 Inl e \<Rightarrow> ErrorMarker e | Inr p \<Rightarrow> Entry p))"
    by blast
  from types have ts: "report_analysis_types rep = [''centrality'', ''community'']"
    by (simp add: validate_analysis_types_def supported_types_def)
  from each ts have "report_results rep ''community'' = Some (ErrorMarker (BackendError ''timeout''))"
    by (simp add: query_map_def)
  moreover from each ts have "report_results rep ''centrality'' =
       Some (case process_network_results (\<lambda>s. None)
                (Rows [[''title'' \<mapsto> PStr ''A'', ''pagerank_score'' \<mapsto> PFloat (1 / 2)]]) ''centrality'' of
               Inl e \<Rightarrow> ErrorMarker e | Inr p \<Rightarrow> Entry p)"
    by (simp add: query_map_def)
  then have "report_results rep ''centrality'' =
       Some (Entry (Ranked \<lparr>ranked_count = 1,
          ranked_records = [[''title'' \<mapsto> PStr ''A'', ''pagerank_score'' \<mapsto> PFloat (1 / 2),
                             ''confidence_score'' \<mapsto> PFloat (1 / 2)]],
          ranked_analysis_type = ''centrality'',
          ranked_metrics_included = [''pagerank_score'']\<rparr>))"
    by (simp add: process_network_results_def confidence_of_def get_main_metric_def metric_map_def
      get_def sort_by_confidence_def get_metrics_list_def)
  ultimately show ?thesis using rep ts by blast
qed

section \<open>Property checks\<close>

lemma dot_not_word: "\<not> is_word (CHR ''.'')"
  by (simp add: is_word_def is_alpha_def lowercase_def uppercase_def digits_def)

lemma match_property_decomp:
  assumes "match_property s = Some ((v, p), rest)"
  shows "s = v @ ''.'' @ p @ rest" "v \<noteq> []" "p \<noteq> []"
    "\<forall>c \<in> set v. is_word c" "\<forall>c \<in> set p. is_word c"
    "rest = [] \<or> \<not> is_word (hd rest)"
proof -
  from assms obtain d e es where d: "dropWhile is_word s = d # e # es"
    and v: "v = takeWhile is_word s" "v \<noteq> []" and dot: "d = CHR ''.''" and e: "is_word e"
    and p: "p = takeWhile is_word (e # es)" and r: "rest = dropWhile is_word es"
    by (auto simp: match_property_def split: list.splits if_splits)
  have "s = takeWhile is_word s @ dropWhile is_word s" by simp
  also have "\<dots> = v @ CHR ''.'' # e # es" using d v dot by simp
  also have "e # es = p @ rest"
    using e p r by simp
  finally show "s = v @ ''.'' @ p @ rest" by simp
  show "v \<noteq> []" by fact
  show "p \<noteq> []" using p e by simp
  show "\<forall>c \<in> set v. is_word c" using v(1) by (auto dest: set_takeWhileD)
  show "\<forall>c \<in> set p. is_word c" using p by (auto dest: set_takeWhileD)
  show "rest = [] \<or> \<not> is_word (hd rest)" unfolding r using hd_dropWhile by blast
qed

lemma match_property_at:
  assumes "v \<noteq> []" "\<forall>c \<in> set v. is_word c" "p \<noteq> []" "\<forall>c \<in> set p. is_word c"
    and "post = [] \<or> \<not> is_word (hd post)"
  shows "match_property (v @ ''.'' @ p @ post) = Some ((v, p), post)"
proof -
  from assms(3) obtain e es where p: "p = e # es" by (cases p) auto
  have tw_post: "takeWhile is_word post = []" and dw_post: "dropWhile is_word post = post"
    using assms(5) by (cases post; simp)+
  have t: "takeWhile is_word (v @ ''.'' @ p @ post) = v"
    using assms(2) dot_not_word by (simp add: takeWhile_append2)
  have d: "dropWhile is_word (v @ ''.'' @ p @ post) = CHR ''.'' # e # es @ post"
    using assms(2) dot_not_word p by (simp add: dropWhile_append2)
  have t2: "takeWhile is_word (e # es @ post) = p"
    using assms(4) p tw_post
    by (metis append_Cons append_Nil2 takeWhile_append2)
  have d2: "dropWhile is_word (es @ post) = post"
    using assms(4) p dw_post by (simp add: dropWhile_append2)
  from assms(4) p have "is_word e" by simp
  with t d t2 d2 assms(1) show ?thesis
    by (simp add: match_property_def)
qed

lemma match_property_skips:
  assumes "match_property (pre @ t) = Some (g, rest)"
    and "pre \<noteq> []" "\<not> is_word (last pre)" "last pre \<noteq> CHR ''.''"
  shows "\<exists>pre'. rest = pre' @ t \<and> pre' \<noteq> [] \<and> last pre' = last pre"
proof -
  obtain v p where g: "g = (v, p)" by (cases g)
  from assms(2) obtain a x where pre: "pre = a @ [x]" by (metis rev_exhaust)
  with assms(3,4) have x: "\<not> is_word x" "x \<noteq> CHR ''.''" by simp_all
  note dec = match_property_decomp [OF assms(1) [unfolded g]]
  have xm: "x \<notin> set (v @ ''.'' @ p)" using dec(4,5) x by auto
  from dec(1) pre have "(v @ ''.'' @ p) @ rest = a @ (x # t)" by simp
  then obtain us where
    "(v @ ''.'' @ p = a @ us \<and> us @ rest = x # t) \<or> ((v @ ''.'' @ p) @ us = a \<and> rest = us @ x # t)"
    unfolding append_eq_append_conv2 by blast
  then show ?thesis
  proof
    assume h: "v @ ''.'' @ p = a @ us \<and> us @ rest = x # t"
    show ?thesis
    proof (cases us)
      case Nil
      with h have "rest = [x] @ t" by simp
      then show ?thesis using pre by auto
    next
      case (Cons u us')
      with h have "u = x" by simp
      with h Cons have "x \<in> set (v @ ''.'' @ p)" by (metis in_set_conv_decomp)
      with xm show ?thesis by blast
    qed
  next
    assume "(v @ ''.'' @ p) @ us = a \<and> rest = us @ x # t"
    then have "rest = (us @ [x]) @ t" by simp
    then show ?thesis using pre by (metis last_snoc snoc_eq_iff_butlast)
  qed
qed

lemma findall_properties_delimited:
  assumes "pre = [] \<or> (\<not> is_word (last pre) \<and> last pre \<noteq> CHR ''.'')"
    and "v \<noteq> []" "\<forall>c \<in> set v. is_word c" "p \<noteq> []" "\<forall>c \<in> set p. is_word c"
    and "post = [] \<or> \<not> is_word (hd post)"
  shows "(v, p) \<in> set (findall_properties (pre @ v @ ''.'' @ p @ post))"
  using assms(1)
proof (induction "length pre" arbitrary: pre rule: less_induct)
  case less
  define t where "t = v @ ''.'' @ p @ post"
  have m: "match_property t = Some ((v, p), post)"
    unfolding t_def using assms(2-6) by (rule match_property_at)
  from assms(2) obtain c cs where t: "t = c # cs" unfolding t_def by (cases v) auto
  show ?case
  proof (cases pre)
    case Nil
    with m t show ?thesis unfolding t_def [symmetric] by simp
  next
    case (Cons x pre1)
    with less.prems have lp: "\<not> is_word (last pre)" "last pre \<noteq> CHR ''.''" by auto
    show ?thesis
    proof (cases "match_property (pre @ t)")
      case None
      have "pre1 = [] \<or> (\<not> is_word (last pre1) \<and> last pre1 \<noteq> CHR ''.'')"
        using lp Cons by (cases pre1) auto
      moreover have "length pre1 < length pre" using Cons by simp
      ultimately have "(v, p) \<in> set (findall_properties (pre1 @ t))"
        using less.hyps unfolding t_def by blast
      with None Cons show ?thesis unfolding t_def [symmetric] by simp
    next
      case (Some a)
      obtain g rest where a: "a = (g, rest)" by (cases a)
      from Some a Cons have "pre \<noteq> []" by simp
      from match_property_skips [OF Some [unfolded a] this lp]
      obtain pre' where pre': "rest = pre' @ t" "pre' \<noteq> []" "last pre' = last pre" by blast
      from match_property_shorter [OF Some [unfolded a]] pre'(1)
      have "length pre' < length pre" by simp
      moreover have "pre' = [] \<or> (\<not> is_word (last pre') \<and> last pre' \<noteq> CHR ''.'')"
        using pre' lp by simp
      ultimately have "(v, p) \<in> set (findall_properties (pre' @ t))"
        using less.hyps unfolding t_def by blast
      with Some a Cons pre'(1) show ?thesis unfolding t_def [symmetric] by simp
    qed
  qed
qed

lemma findall_properties_sound:
  "(v, p) \<in> set (findall_properties s) \<Longrightarrow>
     \<exists>pre post. s = pre @ v @ ''.'' @ p @ post \<and> v \<noteq> [] \<and> p \<noteq> []
       \<and> (\<forall>c \<in> set v. is_word c) \<and> (\<forall>c \<in> set p. is_word c)"
proof (induction s rule: findall_properties.induct)
  case 1
  then show ?case by simp
next
  case (2 c cs)
  show ?case
  proof (cases "match_property (c # cs)")
    case None
    with 2 obtain pre post where "cs = pre @ v @ ''.'' @ p @ post" "v \<noteq> []" "p \<noteq> []"
      "\<forall>c \<in> set v. is_word c" "\<forall>c \<in> set p. is_word c" by auto
    then have "c # cs = (c # pre) @ v @ ''.'' @ p @ post" by simp
    then show ?thesis using \<open>v \<noteq> []\<close> \<open>p \<noteq> []\<close> \<open>\<forall>c \<in> set v. is_word c\<close> \<open>\<forall>c \<in> set p. is_word c\<close>
      by blast
  next
    case (Some a)
    obtain v' p' rest where a: "a = ((v', p'), rest)" by (cases a) auto
    note dec = match_property_decomp [OF Some [unfolded a]]
    from 2(3) Some a have "(v, p) = (v', p') \<or> (v, p) \<in> set (findall_properties rest)" by simp
    then show ?thesis
    proof
      assume "(v, p) = (v', p')"
      with dec have "c # cs = [] @ v @ ''.'' @ p @ rest" "v \<noteq> []" "p \<noteq> []"
        "\<forall>c \<in> set v. is_word c" "\<forall>c \<in> set p. is_word c" by simp_all
      then show ?thesis by blast
    next
      assume "(v, p) \<in> set (findall_properties rest)"
      with 2(2) Some a obtain pre post where r: "rest = pre @ v @ ''.'' @ p @ post" "v \<noteq> []" "p \<noteq> []"
        "\<forall>c \<in> set v. is_word c" "\<forall>c \<in> set p. is_word c" by force
      with dec(1) have "c # cs = (v' @ ''.'' @ p' @ pre) @ v @ ''.'' @ p @ post" by simp
      with r(2-5) show ?thesis by blast
    qed
  qed
qed

lemma find_SomeD: "find P xs = Some x \<Longrightarrow> x \<in> set xs \<and> P x"
  by (induction xs) (auto split: if_splits)

lemma rqa_validate_properties_accepts_iff:
  "rqa_validate_properties q = Inr () \<longleftrightarrow>
     (\<forall>(var, prop) \<in> set (findall_properties q). known_property prop)"
proof (cases "find (\<lambda>(var, prop). \<not> known_property prop) (findall_properties q)")
  case None
  then have "\<forall>(var, prop) \<in> set (findall_properties q). known_property prop"
    by (auto simp: find_None_iff)
  with None show ?thesis by (simp add: rqa_validate_properties_def)
next
  case (Some a)
  obtain vr pr where a: "a = (vr, pr)" by (cases a)
  from find_SomeD [OF Some] a have "(vr, pr) \<in> set (findall_properties q)"
    and "\<not> known_property pr" by auto
  then have "\<not> (\<forall>(var, prop) \<in> set (findall_properties q). known_property prop)" by blast
  with Some a show ?thesis by (simp add: rqa_validate_properties_def)
qed

lemma rqa_validate_properties_rejects:
  assumes "rqa_validate_properties q = Inl e"
  shows "\<exists>var prop. (var, prop) \<in> set (findall_properties q) \<and> \<not> known_property prop
        \<and> e = UnknownProperty prop"
proof (cases "find (\<lambda>(var, prop). \<not> known_property prop) (findall_properties q)")
  case None
  with assms show ?thesis by (simp add: rqa_validate_properties_def)
next
  case (Some a)
  obtain vr pr where a: "a = (vr, pr)" by (cases a)
  from find_SomeD [OF Some] a have "(vr, pr) \<in> set (findall_properties q)"
    and "\<not> known_property pr" by auto
  moreover from assms Some a have "e = UnknownProperty pr"
    by (simp add: rqa_validate_properties_def)
  ultimately show ?thesis by blast
qed

lemma validate_properties_never_unknown:
  "validate_properties q \<noteq> Inl (UnknownProperty prop)"
  by (auto simp: validate_properties_def split: option.splits)


text \<open>
  C7, as amended. The check of property names against the schema is
  \<open>validate_properties\<close> of the validator in \<open>research_query_agent.py\<close>; neither
  \<open>prepare_cypher\<close> nor \<open>validate_full\<close> runs it. It scans the query for
  \<open>variable.property\<close> accesses from left to right and accepts exactly when every
  property it extracts is in the union of the property sets of all node kinds; a rejection
  is an unknown-property error naming a property that stands in the query after a
  variable and a dot and is in none of the sets. Every access that stands on its own in
  the query (not preceded by a word character or a dot, not followed by a word
  character) is extracted, so such an access with an unknown property is always
  rejected. \<open>validate_properties\<close> of \<open>validators.py\<close>, the one that \<open>validate_full\<close>
  runs, only looks for three quoting patterns and never reports an unknown property.
\<close>

theorem property_whitelist_check:
  "(rqa_validate_properties q = Inr () \<longleftrightarrow>
      (\<forall>(var, prop) \<in> set (findall_properties q). known_property prop))
   \<and> (\<forall>e. rqa_validate_properties q = Inl e \<longrightarrow>
         (\<exists>var prop pre post. q = pre @ var @ ''.'' @ prop @ post
            \<and> (var, prop) \<in> set (findall_properties q)
            \<and> \<not> known_property prop \<and> e = UnknownProperty prop))
   \<and> ((pre = [] \<or> (\<not> is_word (last pre) \<and> last pre \<noteq> CHR ''.''))
        \<and> v \<noteq> [] \<and> (\<forall>c \<in> set v. is_word c)
        \<and> p \<noteq> [] \<and> (\<forall>c \<in> set p. is_word c)
        \<and> (post = [] \<or> \<not> is_word (hd post))
        \<and> q = pre @ v @ ''.'' @ p @ post
      \<longrightarrow> (v, p) \<in> set (findall_properties q)
          \<and> (\<not> known_property p \<longrightarrow>
                (\<exists>prop. rqa_validate_properties q = Inl (UnknownProperty prop))))
   \<and> (\<forall>prop. validate_properties q \<noteq> Inl (UnknownProperty prop))"
proof (intro conjI allI impI)
  show "rqa_validate_properties q = Inr () \<longleftrightarrow>
      (\<forall>(var, prop) \<in> set (findall_properties q). known_property prop)"
    by (rule rqa_validate_properties_accepts_iff)
next
  fix e assume "rqa_validate_properties q = Inl e"
  from rqa_validate_properties_rejects [OF this]
  obtain vr pr where vp: "(vr, pr) \<in> set (findall_properties q)"
    "\<not> known_property pr" "e = UnknownProperty pr" by blast
  from findall_properties_sound [OF vp(1)]
  obtain pre post where "q = pre @ vr @ ''.'' @ pr @ post" by blast
  with vp show "\<exists>var prop pre post. q = pre @ var @ ''.'' @ prop @ post
            \<and> (var, prop) \<in> set (findall_properties q)
            \<and> \<not> known_property prop \<and> e = UnknownProperty prop" by blast
next
  assume a: "(pre = [] \<or> (\<not> is_word (last pre) \<and> last pre \<noteq> CHR ''.''))
        \<and> v \<noteq> [] \<and> (\<forall>c \<in> set v. is_word c)
        \<and> p \<noteq> [] \<and> (\<forall>c \<in> set p. is_word c)
        \<and> (post = [] \<or> \<not> is_word (hd post))
        \<and> q = pre @ v @ ''.'' @ p @ post"
  then show m: "(v, p) \<in> set (findall_properties q)"
    using findall_properties_delimited [of pre v p post] by blast
  assume "\<not> known_property p"
  with m have "rqa_validate_properties q \<noteq> Inr ()"
    unfolding rqa_validate_properties_accepts_iff by blast
  then obtain e where e: "rqa_validate_properties q = Inl e"
    by (cases "rqa_validate_properties q") auto
  from rqa_validate_properties_rejects [OF e] e
  show "\<exists>prop. rqa_validate_properties q = Inl (UnknownProperty prop)" by blast
next
  fix pr show "validate_properties q \<noteq> Inl (UnknownProperty pr)"
    by (rule validate_properties_never_unknown)
qed

lemma bogus_unknown: "\<not> known_property ''bogus''"
  by code_simp

lemma example_access_words: "\<forall>c \<in> set ''bogus''. is_word c" "\<forall>c \<in> set ''n''. is_word c"
  "\<not> is_word (last ''MATCH (n:Author) RETURN '')" 
  by code_simp+

theorem property_whitelist_check_witness:
  "(''n'', ''bogus'') \<in> set (findall_properties ''MATCH (n:Author) RETURN n.bogus'')
   \<and> \<not> known_property ''bogus''
   \<and> (\<exists>p. rqa_validate_properties ''MATCH (n:Author) RETURN n.bogus'' = Inl (UnknownProperty p))
   \<and> rqa_validate_properties ''MATCH (n:Author) RETURN n.bogus'' \<noteq> Inr ()"
proof -
  have pre: "\<not> is_word (last ''MATCH (n:Author) RETURN '') \<and> last ''MATCH (n:Author) RETURN '' \<noteq> CHR ''.''"
    using example_access_words(3) by simp
  have q: "''MATCH (n:Author) RETURN n.bogus'' = ''MATCH (n:Author) RETURN '' @ ''n'' @ ''.'' @ ''bogus'' @ []"
    by simp
  note t = property_whitelist_check [of "''MATCH (n:Author) RETURN n.bogus''"
      "''MATCH (n:Author) RETURN ''" "''n''" "''bogus''" "[]"]
  from t pre q example_access_words(1,2) bogus_unknown
  have m: "(''n'', ''bogus'') \<in> set (findall_properties ''MATCH (n:Author) RETURN n.bogus'')"
    and r: "\<exists>p. rqa_validate_properties ''MATCH (n:Author) RETURN n.bogus'' = Inl (UnknownProperty p)"
    by blast+
  from r have "rqa_validate_properties ''MATCH (n:Author) RETURN n.bogus'' \<noteq> Inr ()" by auto
  with m r bogus_unknown show ?thesis by blast
qed

text \<open>
  C7 as stated fails: a query with an access to a property of no node kind passes
  \<open>validate_properties\<close> of \<open>validators.py\<close> and the whole of \<open>validate_full\<close>.
\<close>

theorem unknown_property_passes_validate_full:
  "(''n'', ''bogus'') \<in> set (findall_properties ''MATCH (n:Author) RETURN n.bogus'')
   \<and> \<not> known_property ''bogus''
   \<and> validate_properties ''MATCH (n:Author) RETURN n.bogus'' = Inr ()
   \<and> validate_full FORBIDDEN_KEYWORDS ''MATCH (n:Author) RETURN n.bogus''
       = Inr ''MATCH (n:Author) RETURN n.bogus''"
  by code_simp

end
